theory Spec2Isabelle
  imports Main "HOL-Library.Word" "HOL-Library.Sublist"
begin

section \<open>Accept-Encoding negotiation: the gzip token matchers\<close>

text \<open>
  Go strings are byte sequences; \<open>string\<close> (a list of 8-bit characters) models them
  byte for byte. \<open>strings.Index\<close> returns the byte offset of the first occurrence of
  the needle, or \<open>-1\<close>.
\<close>

definition hasPrefix :: "string \<Rightarrow> string \<Rightarrow> bool" where
  "hasPrefix s p = (take (length p) s = p)"

fun strings_Index :: "string \<Rightarrow> string \<Rightarrow> int" where
  "strings_Index [] sub = (if sub = [] then 0 else - 1)"
| "strings_Index (c # cs) sub =
     (if hasPrefix (c # cs) sub then 0
      else (let r = strings_Index cs sub in if r < 0 then - 1 else r + 1))"

text \<open>
  \<open>CanGzipFast\<close>, the variant \<open>ServeHTTP\<close> calls: it inspects the first occurrence of
  \<open>gzip\<close> only. Both index reads are in range whenever they are evaluated
  (\<open>pos \<ge> 1\<close> for the first, \<open>pos + 4 < len\<close> for the second), so no read can panic.
\<close>

definition CanGzipFast :: "string \<Rightarrow> bool" where
  "CanGzipFast ce =
     (let pos = strings_Index ce ''gzip'' in
        pos \<ge> 0 \<and>
        (pos = 0 \<or> ce ! nat (pos - 1) = CHR '','') \<and>
        (pos + 4 = int (length ce) \<or> ce ! nat (pos + 4) = CHR '',''))"

text \<open>
  \<open>CanGzip\<close> matches the regular expression \<open>(?:^|,)gzip(?:,|$)\<close> anywhere in the
  input. \<open>reGzip_at ce i\<close> says that the literal \<open>gzip\<close> of the expression matches at
  offset \<open>i\<close>: the left alternative is the start of the text or a comma just before,
  the right alternative a comma just after or the end of the text.
\<close>

definition reGzip_at :: "string \<Rightarrow> nat \<Rightarrow> bool" where
  "reGzip_at ce i =
     ((i = 0 \<or> ce ! (i - 1) = CHR '','') \<and>
      take 4 (drop i ce) = ''gzip'' \<and>
      (i + 4 = length ce \<or> ce ! (i + 4) = CHR '',''))"

definition CanGzip :: "string \<Rightarrow> bool" where
  "CanGzip ce = (\<exists>i \<in> set [0 ..< Suc (length ce)]. reGzip_at ce i)"

text \<open>The specification's notion: the comma-separated elements of the header.\<close>

fun split_comma :: "string \<Rightarrow> string list" where
  "split_comma [] = [[]]"
| "split_comma (c # cs) =
     (if c = CHR '','' then [] # split_comma cs
      else (case split_comma cs of t # ts \<Rightarrow> (c # t) # ts | [] \<Rightarrow> [[c]]))"

definition has_gzip_token :: "string \<Rightarrow> bool" where
  "has_gzip_token ce = (''gzip'' \<in> set (split_comma ce))"

section \<open>Reflected types, struct fields and tags\<close>

text \<open>
  \<open>reflect.Kind\<close>, as far as the library switches on it; \<open>KOther\<close> stands for the kinds
  no switch of the library names (channels, functions, complex numbers, ...).
\<close>

datatype kind =
    KBool | KInt | KInt8 | KInt16 | KInt32 | KInt64
  | KUint | KUint8 | KUint16 | KUint32 | KUint64
  | KFloat32 | KFloat64 | KString
  | KArray | KSlice | KMap | KPtr | KStruct | KInterface | KOther

text \<open>
  A struct tag is the list of its \<open>key:"value"\<close> pairs; \<open>Tag.Lookup\<close> returns the first
  pair with the key, \<open>Tag.Get\<close> the empty string when there is none.
\<close>

type_synonym tag = "(string \<times> string) list"

definition tag_Lookup :: "tag \<Rightarrow> string \<Rightarrow> string option" where
  "tag_Lookup tg key = map_of tg key"

definition tag_Get :: "tag \<Rightarrow> string \<Rightarrow> string" where
  "tag_Get tg key = (case tag_Lookup tg key of None \<Rightarrow> [] | Some v \<Rightarrow> v)"

text \<open>
  What the constraint rules read of a \<open>reflect.StructField\<close>: its name, the kind of its
  type and its tag.
\<close>

datatype struct_field = StructField (sf_Name: string) (sf_Kind: kind) (sf_Tag: tag)

text \<open>
  Request types as trees: a struct type carries its fields. \<open>TFile\<close> is the interface
  type \<open>rpc.File\<close>, \<open>TIface\<close> any other interface type, \<open>TScalar\<close> a built-in scalar
  type of the given kind.
\<close>

datatype scalar =
    SBool | SInt | SInt8 | SInt16 | SInt32 | SInt64
  | SUint | SUint8 | SUint16 | SUint32 | SUint64
  | SFloat32 | SFloat64 | SString

datatype gotype =
    TScalar scalar
  | TPtr gotype
  | TSlice gotype
  | TArray gotype
  | TMap gotype gotype
  | TFile
  | TIface
  | TStruct "field list"
and field = Field (fname: string) (ftype: gotype) (ftag: tag)

fun kind_of_scalar :: "scalar \<Rightarrow> kind" where
  "kind_of_scalar SBool = KBool"
| "kind_of_scalar SInt = KInt"
| "kind_of_scalar SInt8 = KInt8"
| "kind_of_scalar SInt16 = KInt16"
| "kind_of_scalar SInt32 = KInt32"
| "kind_of_scalar SInt64 = KInt64"
| "kind_of_scalar SUint = KUint"
| "kind_of_scalar SUint8 = KUint8"
| "kind_of_scalar SUint16 = KUint16"
| "kind_of_scalar SUint32 = KUint32"
| "kind_of_scalar SUint64 = KUint64"
| "kind_of_scalar SFloat32 = KFloat32"
| "kind_of_scalar SFloat64 = KFloat64"
| "kind_of_scalar SString = KString"

fun kind_of :: "gotype \<Rightarrow> kind" where
  "kind_of (TScalar s) = kind_of_scalar s"
| "kind_of (TPtr _) = KPtr"
| "kind_of (TSlice _) = KSlice"
| "kind_of (TArray _) = KArray"
| "kind_of (TMap _ _) = KMap"
| "kind_of TFile = KInterface"
| "kind_of TIface = KInterface"
| "kind_of (TStruct _) = KStruct"

definition sf_of :: "field \<Rightarrow> struct_field" where
  "sf_of f = StructField (fname f) (kind_of (ftype f)) (ftag f)"

text \<open>A field is exported when its name starts with an upper-case letter.\<close>

definition is_upper :: "char \<Rightarrow> bool" where
  "is_upper c = ((65::nat) \<le> of_char c \<and> of_char c \<le> (90::nat))"

definition IsExported :: "string \<Rightarrow> bool" where
  "IsExported n = (case n of [] \<Rightarrow> False | c # _ \<Rightarrow> is_upper c)"

section \<open>Errors\<close>

text \<open>
  \<open>RpcError code message\<close> is the structured \<open>*rpc.Error\<close> (its optional payload is not
  modelled); \<open>NumError fn input reason\<close> is \<open>*strconv.NumError\<close>; \<open>PlainError\<close> any
  other error, by its text; \<open>EOF\<close> is the sentinel \<open>io.EOF\<close>. \<open>error_text\<close> is \<open>err.Error()\<close> where the pipeline takes it.
\<close>

datatype go_error =
    RpcError (Code: string) (Message: string)
  | NumError string string string
  | PlainError string
  | EOF

fun error_text :: "go_error \<Rightarrow> string" where
  "error_text (RpcError c m) = ''['' @ c @ ''] '' @ m"
| "error_text (NumError fn inp why) = ''strconv.'' @ fn @ '': parsing '' @ inp @ '': '' @ why"
| "error_text (PlainError t) = t"
| "error_text EOF = ''EOF''"

section \<open>Decimal numbers: \<open>strconv\<close> and \<open>%d\<close>\<close>

definition is_digit :: "char \<Rightarrow> bool" where
  "is_digit c = ((48::nat) \<le> of_char c \<and> of_char c \<le> (57::nat))"

definition digit_val :: "char \<Rightarrow> nat" where
  "digit_val c = of_char c - (48::nat)"

definition digits_val :: "string \<Rightarrow> nat" where
  "digits_val s = foldl (\<lambda>a c. 10 * a + digit_val c) 0 s"

text \<open>
  \<open>strconv.ParseUint(s, 10, 64)\<close>: one or more decimal digits, no sign, below \<open>2^64\<close>.
\<close>

definition ParseUint :: "string \<Rightarrow> go_error + nat" where
  "ParseUint s =
     (if s = [] \<or> \<not> list_all is_digit s then Inl (NumError ''ParseUint'' s ''invalid syntax'')
      else if digits_val s \<ge> 2 ^ 64 then Inl (NumError ''ParseUint'' s ''value out of range'')
      else Inr (digits_val s))"

text \<open>
  \<open>strconv.ParseInt(s, 10, 64)\<close>: an optional sign, one or more decimal digits, and the
  value within \<open>[-2^63, 2^63)\<close>.
\<close>

definition ParseInt :: "string \<Rightarrow> go_error + int" where
  "ParseInt s0 =
     (if s0 = [] then Inl (NumError ''ParseInt'' s0 ''invalid syntax'')
      else
        let neg = (hd s0 = CHR ''-'');
            s = (if hd s0 = CHR ''+'' \<or> hd s0 = CHR ''-'' then tl s0 else s0)
        in if s = [] \<or> \<not> list_all is_digit s
           then Inl (NumError ''ParseInt'' s0 ''invalid syntax'')
           else if \<not> neg \<and> digits_val s \<ge> 2 ^ 63
           then Inl (NumError ''ParseInt'' s0 ''value out of range'')
           else if neg \<and> digits_val s > 2 ^ 63
           then Inl (NumError ''ParseInt'' s0 ''value out of range'')
           else Inr (if neg then - int (digits_val s) else int (digits_val s)))"

text \<open>The verb \<open>%d\<close> of \<open>fmt\<close>.\<close>

fun show_nat :: "nat \<Rightarrow> string" where
  "show_nat n =
     (if n < 10 then [char_of (48 + n)]
      else show_nat (n div 10) @ [char_of (48 + n mod 10)])"

declare show_nat.simps [simp del]

definition show_int :: "int \<Rightarrow> string" where
  "show_int i = (if i < 0 then CHR ''-'' # show_nat (nat (- i)) else show_nat (nat i))"

section \<open>Constraint rules\<close>

text \<open>
  The regular-expression engine (\<open>regexp.Compile\<close>, \<open>MatchString\<close>) is a library the
  rules call; it is a parameter of the model. \<open>re_Compile p = None\<close> means that the
  pattern compiles.
\<close>

record re_lib =
  re_Compile :: "string \<Rightarrow> go_error option"
  re_MatchString :: "string \<Rightarrow> string \<Rightarrow> bool"

text \<open>
  \<open>openapi.Schema\<close>. \<open>Minimum\<close> and \<open>Maximum\<close> are \<open>interface{}\<close> fields holding an
  \<open>int64\<close> or a \<open>uint64\<close>, \<open>None\<close> when unset; \<open>Properties\<close> is a map, kept as an
  association list.
\<close>

datatype num_val = I64 int | U64 nat

datatype schema = Schema
  (Ref: string) (Description: string) (Type: string) (Format: string)
  (Properties: "(string \<times> schema) list") (Items: "schema option")
  (Minimum: "num_val option") (Maximum: "num_val option") (Pattern: string)

definition empty_schema :: schema where
  "empty_schema = Schema [] [] [] [] [] None None None []"

fun set_Description :: "string \<Rightarrow> schema \<Rightarrow> schema" where
  "set_Description d (Schema r _ t f ps i mn mx pt) = Schema r d t f ps i mn mx pt"

fun set_Minimum :: "num_val \<Rightarrow> schema \<Rightarrow> schema" where
  "set_Minimum v (Schema r d t f ps i _ mx pt) = Schema r d t f ps i (Some v) mx pt"

fun set_Maximum :: "num_val \<Rightarrow> schema \<Rightarrow> schema" where
  "set_Maximum v (Schema r d t f ps i mn _ pt) = Schema r d t f ps i mn (Some v) pt"

fun set_Pattern :: "string \<Rightarrow> schema \<Rightarrow> schema" where
  "set_Pattern v (Schema r d t f ps i mn mx _) = Schema r d t f ps i mn mx v"

datatype validator = VMinimumInt | VMinimumUint | VMaximumInt | VPattern

definition vMinimumInt_GetValue :: "struct_field \<Rightarrow> go_error + int option" where
  "vMinimumInt_GetValue f =
     (case tag_Lookup (sf_Tag f) ''minimum'' of
        Some t \<Rightarrow> (case ParseInt t of Inl err \<Rightarrow> Inl err | Inr v \<Rightarrow> Inr (Some v))
      | None \<Rightarrow> Inr None)"

definition vMinimumUint_GetValue :: "struct_field \<Rightarrow> go_error + nat option" where
  "vMinimumUint_GetValue f =
     (case tag_Lookup (sf_Tag f) ''minimum'' of
        Some t \<Rightarrow> (case ParseUint t of Inl err \<Rightarrow> Inl err | Inr v \<Rightarrow> Inr (Some v))
      | None \<Rightarrow> Inr None)"

definition vMaximumInt_GetValue :: "struct_field \<Rightarrow> go_error + int option" where
  "vMaximumInt_GetValue f =
     (case tag_Lookup (sf_Tag f) ''maximum'' of
        Some t \<Rightarrow> (case ParseInt t of Inl err \<Rightarrow> Inl err | Inr v \<Rightarrow> Inr (Some v))
      | None \<Rightarrow> Inr None)"

definition vPattern_GetValue :: "re_lib \<Rightarrow> struct_field \<Rightarrow> go_error + string" where
  "vPattern_GetValue re f =
     (case tag_Lookup (sf_Tag f) ''pattern'' of
        Some t \<Rightarrow> (case re_Compile re t of Some err \<Rightarrow> Inl err | None \<Rightarrow> Inr t)
      | None \<Rightarrow> Inr [])"

text \<open>
  \<open>ToSwaggerSchema\<close> of the four rules, as written: the maximum rule stores its value in
  the \<open>Minimum\<close> field of the schema.
\<close>

fun ToSwaggerSchema :: "re_lib \<Rightarrow> validator \<Rightarrow> struct_field \<Rightarrow> schema \<Rightarrow> go_error + schema" where
  "ToSwaggerSchema re VMinimumInt f sch =
     (case vMinimumInt_GetValue f of
        Inl err \<Rightarrow> Inl err
      | Inr (Some val) \<Rightarrow> Inr (set_Minimum (I64 val) sch)
      | Inr None \<Rightarrow> Inr sch)"
| "ToSwaggerSchema re VMinimumUint f sch =
     (case vMinimumUint_GetValue f of
        Inl err \<Rightarrow> Inl err
      | Inr (Some val) \<Rightarrow> Inr (set_Minimum (U64 val) sch)
      | Inr None \<Rightarrow> Inr sch)"
| "ToSwaggerSchema re VMaximumInt f sch =
     (case vMaximumInt_GetValue f of
        Inl err \<Rightarrow> Inl err
      | Inr (Some val) \<Rightarrow> Inr (set_Minimum (I64 val) sch)
      | Inr None \<Rightarrow> Inr sch)"
| "ToSwaggerSchema re VPattern f sch =
     (case vPattern_GetValue re f of
        Inl err \<Rightarrow> Inl err
      | Inr val \<Rightarrow> Inr (if val \<noteq> [] then set_Pattern val sch else sch))"

text \<open>
  A compiled predicate is a closure over the field and the parsed bound; the model keeps
  the captured values. \<open>validateFunc\<close> values are run by \<open>run_validateFunc\<close>.
\<close>

datatype validateFunc =
    MinIntFunc struct_field int
  | MinUintFunc struct_field nat
  | MaxIntFunc struct_field int
  | PatternFunc struct_field string

fun GetValidateFunc :: "re_lib \<Rightarrow> validator \<Rightarrow> struct_field \<Rightarrow> go_error + validateFunc option" where
  "GetValidateFunc re VMinimumInt f =
     (case vMinimumInt_GetValue f of
        Inl err \<Rightarrow> Inl err
      | Inr None \<Rightarrow> Inr None
      | Inr (Some targetVal) \<Rightarrow> Inr (Some (MinIntFunc f targetVal)))"
| "GetValidateFunc re VMinimumUint f =
     (case vMinimumUint_GetValue f of
        Inl err \<Rightarrow> Inl err
      | Inr None \<Rightarrow> Inr None
      | Inr (Some targetVal) \<Rightarrow> Inr (Some (MinUintFunc f targetVal)))"
| "GetValidateFunc re VMaximumInt f =
     (case vMaximumInt_GetValue f of
        Inl err \<Rightarrow> Inl err
      | Inr None \<Rightarrow> Inr None
      | Inr (Some targetVal) \<Rightarrow> Inr (Some (MaxIntFunc f targetVal)))"
| "GetValidateFunc re VPattern f =
     (case vPattern_GetValue re f of
        Inl err \<Rightarrow> Inl err
      | Inr pattern \<Rightarrow> Inr (if pattern = [] then None else Some (PatternFunc f pattern)))"

definition intValidators :: "validator list" where
  "intValidators = [VMinimumInt, VMaximumInt]"

definition uintValidators :: "validator list" where
  "uintValidators = [VMinimumUint, VMinimumUint]"

text \<open>The table \<open>validators\<close>; a kind without an entry reads as the empty list.\<close>

fun validators :: "kind \<Rightarrow> validator list" where
  "validators KInt = intValidators"
| "validators KInt8 = intValidators"
| "validators KInt16 = intValidators"
| "validators KInt32 = intValidators"
| "validators KInt64 = intValidators"
| "validators KUint = uintValidators"
| "validators KUint8 = uintValidators"
| "validators KUint16 = uintValidators"
| "validators KUint32 = uintValidators"
| "validators KUint64 = uintValidators"
| "validators KString = [VPattern]"
| "validators _ = []"

text \<open>\<open>addFieldRestrictions\<close> of the documentation projection.\<close>

fun addRestrictions :: "re_lib \<Rightarrow> validator list \<Rightarrow> struct_field \<Rightarrow> schema \<Rightarrow> go_error + schema" where
  "addRestrictions re [] f sch = Inr sch"
| "addRestrictions re (v # vs) f sch =
     (case ToSwaggerSchema re v f sch of
        Inl err \<Rightarrow> Inl err
      | Inr sch' \<Rightarrow> addRestrictions re vs f sch')"

definition addFieldRestrictions :: "re_lib \<Rightarrow> struct_field \<Rightarrow> schema \<Rightarrow> go_error + schema" where
  "addFieldRestrictions re f sch = addRestrictions re (validators (sf_Kind f)) f sch"

section \<open>Values, files and temporary storage\<close>

type_synonym bytes = "8 word list"

text \<open>
  A \<open>File\<close> value is either the in-memory \<open>buffer\<close> with its unread bytes, or a handle
  on a temporary file, named here by its index in the table of temporary files.
\<close>

datatype gofile = Buffer bytes | TmpFile nat

text \<open>
  Request and response values. \<open>VInt\<close> is a value of one of the five built-in signed
  integer types, \<open>VUint\<close> of one of the unsigned ones; the payload of a float plays no
  part and is left out. A struct value lists its fields with their declarations.
\<close>

datatype gval =
    VBool bool
  | VInt int
  | VUint nat
  | VFloat
  | VString string
  | VPtr "gval option"
  | VSlice "gval list"
  | VMap "(gval \<times> gval) list"
  | VNil
  | VFile gofile
  | VStruct "(field \<times> gval) list"

text \<open>
  The temporary files of the process: content, offset of the open handle, whether the
  handle is open, and whether the file is still present on disk.
\<close>

record tmp_entry =
  t_content :: bytes
  t_offset :: nat
  t_open :: bool
  t_exists :: bool

type_synonym fs = "tmp_entry list"

text \<open>
  \<open>os.CreateTemp\<close> adds a file; \<open>Write\<close> appends at the end (the handle is fresh and
  only written by \<open>io.Copy\<close>); \<open>Seek(0, 0)\<close> rewinds; \<open>os.Remove\<close> unlinks the file;
  \<open>Close\<close> closes the handle.
\<close>

definition CreateTemp :: "fs \<Rightarrow> nat \<times> fs" where
  "CreateTemp st =
     (length st, st @ [\<lparr>t_content = [], t_offset = 0, t_open = True, t_exists = True\<rparr>])"

definition fs_Write :: "nat \<Rightarrow> bytes \<Rightarrow> fs \<Rightarrow> fs" where
  "fs_Write i bs st =
     (if i < length st
      then st[i := (st ! i)\<lparr>t_content := t_content (st ! i) @ bs,
                           t_offset := t_offset (st ! i) + length bs\<rparr>]
      else st)"

definition fs_Seek0 :: "nat \<Rightarrow> fs \<Rightarrow> fs" where
  "fs_Seek0 i st = (if i < length st then st[i := (st ! i)\<lparr>t_offset := 0\<rparr>] else st)"

definition fs_Remove :: "nat \<Rightarrow> fs \<Rightarrow> fs" where
  "fs_Remove i st = (if i < length st then st[i := (st ! i)\<lparr>t_exists := False\<rparr>] else st)"

definition fs_Close :: "nat \<Rightarrow> fs \<Rightarrow> fs" where
  "fs_Close i st = (if i < length st then st[i := (st ! i)\<lparr>t_open := False\<rparr>] else st)"

text \<open>
  \<open>Size\<close> of the two implementations of \<open>File\<close>: the unread length of the buffer, and
  the size \<open>Stat\<close> reports for the temporary file.
\<close>

fun file_Size :: "gofile \<Rightarrow> fs \<Rightarrow> int" where
  "file_Size (Buffer bs) st = int (length bs)"
| "file_Size (TmpFile i) st = (if i < length st then int (length (t_content (st ! i))) else 0)"

text \<open>
  \<open>Close\<close> of the two implementations: a no-op on a buffer; on a temporary file, close
  the handle, then remove the file.
\<close>

fun file_Close :: "gofile \<Rightarrow> fs \<Rightarrow> fs" where
  "file_Close (Buffer bs) st = st"
| "file_Close (TmpFile i) st = fs_Remove i (fs_Close i st)"

section \<open>Compiling validators at registration\<close>

text \<open>
  \<open>MethodDesc.Validators\<close> is a map from field path to predicates, kept as an association
  list with unique keys; a missing key reads as the empty list, as in Go.
\<close>

type_synonym vmap = "(string \<times> validateFunc list) list"

definition vmap_get :: "vmap \<Rightarrow> string \<Rightarrow> validateFunc list" where
  "vmap_get m path = (case map_of m path of None \<Rightarrow> [] | Some vs \<Rightarrow> vs)"

text \<open>Assignment \<open>m[k] = v\<close> on a Go map kept as an association list.\<close>

fun al_set :: "('k \<times> 'v) list \<Rightarrow> 'k \<Rightarrow> 'v \<Rightarrow> ('k \<times> 'v) list" where
  "al_set [] k v = [(k, v)]"
| "al_set ((k', v') # m) k v =
     (if k' = k then (k', v) # m else (k', v') # al_set m k v)"

text \<open>The loop over the rules of a leaf field's kind.\<close>

fun compile_rules :: "re_lib \<Rightarrow> validator list \<Rightarrow> struct_field \<Rightarrow> vmap \<Rightarrow> string \<Rightarrow> go_error + vmap" where
  "compile_rules re [] f m path = Inr m"
| "compile_rules re (v # vs) f m path =
     (case GetValidateFunc re v f of
        Inl err \<Rightarrow> Inl err
      | Inr None \<Rightarrow> compile_rules re vs f m path
      | Inr (Some vFunc) \<Rightarrow>
          compile_rules re vs f (al_set m path (vmap_get m path @ [vFunc])) path)"

fun getValidators :: "re_lib \<Rightarrow> gotype \<Rightarrow> vmap \<Rightarrow> string \<Rightarrow> go_error + vmap"
and getValidators_fields :: "re_lib \<Rightarrow> field list \<Rightarrow> vmap \<Rightarrow> string \<Rightarrow> go_error + vmap" where
  "getValidators re (TPtr t) m curPath = getValidators re t m curPath"
| "getValidators re (TStruct fs) m curPath = getValidators_fields re fs m curPath"
| "getValidators re (TScalar _) m curPath = Inr m"
| "getValidators re (TSlice _) m curPath = Inr m"
| "getValidators re (TArray _) m curPath = Inr m"
| "getValidators re (TMap _ _) m curPath = Inr m"
| "getValidators re TFile m curPath = Inr m"
| "getValidators re TIface m curPath = Inr m"
| "getValidators_fields re [] m curPath = Inr m"
| "getValidators_fields re (Field name t tg # fs) m curPath =
     (case (if kind_of (case t of TPtr e \<Rightarrow> e | _ \<Rightarrow> t) = KStruct
            then getValidators re t m (curPath @ ''/'' @ name)
            else compile_rules re (validators (kind_of t)) (sf_of (Field name t tg)) m
                   (curPath @ ''/'' @ name)) of
        Inl err \<Rightarrow> Inl err
      | Inr m' \<Rightarrow> getValidators_fields re fs m' curPath)"

section \<open>Running validators on a request\<close>

datatype vres = Pass | Reject string | Panic string

definition err_name :: "struct_field \<Rightarrow> string" where
  "err_name f = (case tag_Lookup (sf_Tag f) ''json'' of Some tg \<Rightarrow> tg | None \<Rightarrow> sf_Name f)"

fun run_validateFunc :: "re_lib \<Rightarrow> validateFunc \<Rightarrow> gval \<Rightarrow> vres" where
  "run_validateFunc re (MinIntFunc f targetVal) v =
     (case v of
        VInt intVal \<Rightarrow>
          if intVal < targetVal
          then Reject (err_name f @ ''='' @ show_int intVal @
                       '' is less than requred minimum '' @ show_int targetVal)
          else Pass
      | _ \<Rightarrow> Panic ''Unknown int type'')"
| "run_validateFunc re (MinUintFunc f targetVal) v =
     (case v of
        VUint uintVal \<Rightarrow>
          if uintVal < targetVal
          then Reject (err_name f @ ''='' @ show_nat uintVal @
                       '' is less than requred minimum '' @ show_nat targetVal)
          else Pass
      | _ \<Rightarrow> Panic ''Unknown int type'')"
| "run_validateFunc re (MaxIntFunc f targetVal) v =
     (case v of
        VInt intVal \<Rightarrow>
          if intVal > targetVal
          then Reject (err_name f @ ''='' @ show_int intVal @
                       '' is greater than requred maximum '' @ show_int targetVal)
          else Pass
      | _ \<Rightarrow> Panic ''Unknown int type'')"
| "run_validateFunc re (PatternFunc f pattern) v =
     (case v of
        VString val \<Rightarrow>
          if \<not> re_MatchString re pattern val
          then Reject (err_name f @ ''='' @
                       (if length val > 25 then take 22 val @ ''...'' else val) @
                       '' does not match the pattern '' @ pattern)
          else Pass
      | _ \<Rightarrow> Panic ''interface conversion: interface {} is not string'')"

fun run_validators :: "re_lib \<Rightarrow> validateFunc list \<Rightarrow> gval \<Rightarrow> vres" where
  "run_validators re [] v = Pass"
| "run_validators re (validate # rest) v =
     (case run_validateFunc re validate v of
        Pass \<Rightarrow> run_validators re rest v
      | r \<Rightarrow> r)"

text \<open>
  \<open>validateData\<close>. \<open>fieldVal.Interface()\<close> is evaluated inside the loop over the
  predicates of the path, and panics on an unexported field.
\<close>

fun validateData :: "re_lib \<Rightarrow> vmap \<Rightarrow> gval \<Rightarrow> string \<Rightarrow> vres"
and validateData_fields :: "re_lib \<Rightarrow> vmap \<Rightarrow> (field \<times> gval) list \<Rightarrow> string \<Rightarrow> vres" where
  "validateData re m (VPtr (Some v)) curPath = validateData re m v curPath"
| "validateData re m (VPtr None) curPath = Pass"
| "validateData re m (VStruct fvs) curPath = validateData_fields re m fvs curPath"
| "validateData re m (VBool _) curPath = Pass"
| "validateData re m (VInt _) curPath = Pass"
| "validateData re m (VUint _) curPath = Pass"
| "validateData re m VFloat curPath = Pass"
| "validateData re m (VString _) curPath = Pass"
| "validateData re m (VSlice _) curPath = Pass"
| "validateData re m (VMap _) curPath = Pass"
| "validateData re m VNil curPath = Pass"
| "validateData re m (VFile _) curPath = Pass"
| "validateData_fields re m [] curPath = Pass"
| "validateData_fields re m ((Field name t tg, fieldVal) # fvs) curPath =
     (case (if kind_of (case t of TPtr e \<Rightarrow> e | _ \<Rightarrow> t) = KStruct
            then validateData re m fieldVal (curPath @ ''/'' @ name)
            else if vmap_get m (curPath @ ''/'' @ name) \<noteq> [] \<and> \<not> IsExported name
            then Panic ''reflect.Value.Interface: cannot return value obtained from unexported field or method''
            else run_validators re (vmap_get m (curPath @ ''/'' @ name)) fieldVal) of
        Pass \<Rightarrow> validateData_fields re m fvs curPath
      | r \<Rightarrow> r)"

section \<open>The request pipeline: \<open>MethodDesc.Call\<close>\<close>

text \<open>
  An \<open>io.Reader\<close> delivers its bytes and then ends, with \<open>io.EOF\<close> (\<open>rd_err = None\<close>)
  or with a read error. The multipart reader and the JSON decoder are libraries: the
  model takes the sequence of results of \<open>NextPart\<close> (the end of the list is \<open>io.EOF\<close>)
  and the result of \<open>Decode\<close> from its environment, together with the failures the
  operating system may report for the temporary file.
\<close>

record reader =
  rd_data :: bytes
  rd_err :: "go_error option"

record part =
  FormName :: string
  p_body :: reader

datatype part_event = NextPart part | NextPartErr go_error

record io_env =
  json_Decode :: "reader \<Rightarrow> gval \<Rightarrow> go_error + gval"
  multipart_parts :: "reader \<Rightarrow> string \<Rightarrow> part_event list"
  CreateTemp_err :: "go_error option"
  Write_err :: "go_error option"
  Seek_err :: "go_error option"

datatype 'a outcome = Return 'a | Fail go_error | Panicked string

text \<open>
  \<open>io.CopyN(buf, p, n)\<close>: the bytes copied, their number, the error, and what is left
  of the reader. A limit \<open>n \<le> 0\<close> reads nothing and reports no error; fewer than \<open>n\<close>
  bytes available reports \<open>io.EOF\<close> or the reader's error.
\<close>

definition CopyN :: "reader \<Rightarrow> int \<Rightarrow> bytes \<times> int \<times> go_error option \<times> reader" where
  "CopyN p n =
     (if n \<le> 0 then ([], 0, None, p)
      else if int (length (rd_data p)) \<ge> n
      then (take (nat n) (rd_data p), n, None, p\<lparr>rd_data := drop (nat n) (rd_data p)\<rparr>)
      else (rd_data p, int (length (rd_data p)),
            Some (case rd_err p of None \<Rightarrow> EOF | Some e \<Rightarrow> e), p\<lparr>rd_data := []\<rparr>))"

text \<open>
  The capture of a file part (the body of the \<open>checkFileField\<close> branch). \<open>maxMemory\<close> is
  an \<open>int64\<close>: \<open>maxMemory + 1\<close> wraps around, and both comparisons are signed.
\<close>

definition spool :: "io_env \<Rightarrow> bytes \<Rightarrow> reader \<Rightarrow> fs \<Rightarrow> (go_error + gofile) \<times> fs" where
  "spool io buf p st =
     (case CreateTemp_err io of
        Some err \<Rightarrow> (Inl err, st)
      | None \<Rightarrow>
         (case CreateTemp st of (tmp, st1) \<Rightarrow>
            (case (if buf @ rd_data p \<noteq> [] \<and> Write_err io \<noteq> None then Write_err io
                   else if rd_err p \<noteq> None \<and> rd_err p \<noteq> Some EOF then rd_err p
                   else None) of
               Some err \<Rightarrow>
                 (Inl err,
                  fs_Remove tmp (if Write_err io \<noteq> None then st1
                                 else fs_Write tmp (buf @ rd_data p) st1))
             | None \<Rightarrow>
                 (case Seek_err io of
                    Some err \<Rightarrow> (Inl err, fs_Remove tmp (fs_Write tmp (buf @ rd_data p) st1))
                  | None \<Rightarrow> (Inr (TmpFile tmp), fs_Seek0 tmp (fs_Write tmp (buf @ rd_data p) st1))))))"

definition capture_file :: "io_env \<Rightarrow> 64 word \<Rightarrow> reader \<Rightarrow> fs \<Rightarrow> (go_error + gofile) \<times> fs" where
  "capture_file io maxMemory p st =
     (case CopyN p (sint (maxMemory + 1)) of
        (buf, n, err, p') \<Rightarrow>
          (case (if err = Some EOF then None else err) of
             Some e \<Rightarrow> (Inl e, st)
           | None \<Rightarrow>
               if n > sint maxMemory then spool io buf p' st
               else (Inr (Buffer buf), st)))"

fun checkFileField :: "string \<Rightarrow> field list \<Rightarrow> string option" where
  "checkFileField partName [] = None"
| "checkFileField partName (f # fs) =
     (if partName = tag_Get (ftag f) ''json'' \<and> ftype f = TFile then Some (fname f)
      else checkFileField partName fs)"

fun set_field :: "string \<Rightarrow> gval \<Rightarrow> (field \<times> gval) list \<Rightarrow> (field \<times> gval) list" where
  "set_field name v [] = []"
| "set_field name v ((f, x) # fvs) =
     (if fname f = name then (f, v) # fvs else (f, x) # set_field name v fvs)"

definition set_FieldByName :: "string \<Rightarrow> gval \<Rightarrow> gval \<Rightarrow> gval" where
  "set_FieldByName name v req =
     (case req of VStruct fvs \<Rightarrow> VStruct (set_field name v fvs) | _ \<Rightarrow> req)"

text \<open>The zero value \<open>reflect.New\<close> allocates.\<close>

fun zero_scalar :: "scalar \<Rightarrow> gval" where
  "zero_scalar SBool = VBool False"
| "zero_scalar SString = VString []"
| "zero_scalar SFloat32 = VFloat"
| "zero_scalar SFloat64 = VFloat"
| "zero_scalar SUint = VUint 0"
| "zero_scalar SUint8 = VUint 0"
| "zero_scalar SUint16 = VUint 0"
| "zero_scalar SUint32 = VUint 0"
| "zero_scalar SUint64 = VUint 0"
| "zero_scalar _ = VInt 0"

fun zero_value :: "gotype \<Rightarrow> gval"
and zero_fields :: "field list \<Rightarrow> (field \<times> gval) list" where
  "zero_value (TScalar s) = zero_scalar s"
| "zero_value (TPtr _) = VPtr None"
| "zero_value (TSlice _) = VSlice []"
| "zero_value (TArray _) = VSlice []"
| "zero_value (TMap _ _) = VMap []"
| "zero_value TFile = VNil"
| "zero_value TIface = VNil"
| "zero_value (TStruct fs) = VStruct (zero_fields fs)"
| "zero_fields [] = []"
| "zero_fields (Field name t tg # fs) = (Field name t tg, zero_value t) # zero_fields fs"

text \<open>
  The loop over the parts. \<open>t\<close> is \<open>req.Elem().Type()\<close>; \<open>NumField\<close> of a type that is
  not a struct panics, and so does \<open>Set\<close> on an unexported field.
\<close>

fun read_parts :: "io_env \<Rightarrow> gotype \<Rightarrow> 64 word \<Rightarrow> part_event list \<Rightarrow> gval \<Rightarrow> fs \<Rightarrow> gval outcome \<times> fs" where
  "read_parts io t maxMemory [] req st = (Return req, st)"
| "read_parts io t maxMemory (NextPartErr err # ps) req st =
     (if err = EOF then (Return req, st) else (Fail err, st))"
| "read_parts io t maxMemory (NextPart p # ps) req st =
     (case t of
        TStruct fs \<Rightarrow>
          (case checkFileField (FormName p) fs of
             Some name \<Rightarrow>
               (case capture_file io maxMemory (p_body p) st of
                  (Inl err, st1) \<Rightarrow> (Fail err, st1)
                | (Inr file, st1) \<Rightarrow>
                    if \<not> IsExported name
                    then (Panicked ''reflect: reflect.Value.Set using value obtained using unexported field'', st1)
                    else read_parts io t maxMemory ps (set_FieldByName name (VFile file) req) st1)
           | None \<Rightarrow>
               (case json_Decode io (p_body p) req of
                  Inl err \<Rightarrow>
                    if err = EOF then read_parts io t maxMemory ps req st
                    else (Fail (RpcError ''INVALID_JSON'' (error_text err)), st)
                | Inr req' \<Rightarrow> read_parts io t maxMemory ps req' st))
      | _ \<Rightarrow> (Panicked ''reflect: NumField of non-struct type'', st))"

text \<open>
  A handler receives the pointer to the request and may use the files in it; it returns
  the response or an error, or panics.
\<close>

type_synonym handler = "gval \<Rightarrow> fs \<Rightarrow> gval outcome \<times> fs"

record MethodDesc =
  Path :: string
  Request :: gotype
  Response :: gotype
  Func :: handler
  Errors :: "(string \<times> string) list"
  Validators :: vmap

text \<open>
  \<open>Type.Elem\<close> is defined on pointer, array, slice and map types and panics on the
  others; \<open>Func.Call\<close> panics when the argument is not of the parameter's type, which is
  the case when the request parameter is not a pointer.
\<close>

fun type_Elem :: "gotype \<Rightarrow> gotype option" where
  "type_Elem (TPtr t) = Some t"
| "type_Elem (TSlice t) = Some t"
| "type_Elem (TArray t) = Some t"
| "type_Elem (TMap k t) = Some t"
| "type_Elem _ = None"

text \<open>
  \<open>Call\<close> returns its result, the list of requests the handler was invoked with, and the
  temporary files as it leaves them.
\<close>

definition decode_request :: "io_env \<Rightarrow> gotype \<Rightarrow> reader \<Rightarrow> string \<Rightarrow> 64 word \<Rightarrow> fs \<Rightarrow> gval outcome \<times> fs" where
  "decode_request io t r boundary maxMemory st =
     (if boundary \<noteq> []
      then read_parts io t maxMemory (multipart_parts io r boundary) (zero_value t) st
      else (case json_Decode io r (zero_value t) of
              Inl err \<Rightarrow> (Fail (RpcError ''INVALID_JSON'' (error_text err)), st)
            | Inr req \<Rightarrow> (Return req, st)))"

definition Call :: "re_lib \<Rightarrow> io_env \<Rightarrow> MethodDesc \<Rightarrow> reader \<Rightarrow> string \<Rightarrow> 64 word \<Rightarrow> fs \<Rightarrow> gval outcome \<times> gval list \<times> fs" where
  "Call re io m r boundary maxMemory st =
     (case type_Elem (Request m) of
        None \<Rightarrow> (Panicked ''reflect: Elem of invalid type'', [], st)
      | Some t \<Rightarrow>
         (case decode_request io t r boundary maxMemory st of
            (Fail err, st1) \<Rightarrow> (Fail err, [], st1)
          | (Panicked msg, st1) \<Rightarrow> (Panicked msg, [], st1)
          | (Return req, st1) \<Rightarrow>
             (case (if Validators m \<noteq> []
                    then validateData re (Validators m) (VPtr (Some req)) []
                    else Pass) of
                Reject msg \<Rightarrow> (Fail (RpcError ''INVALID_JSON'' msg), [], st1)
              | Panic msg \<Rightarrow> (Panicked msg, [], st1)
              | Pass \<Rightarrow>
                 (case Request m of
                    TPtr _ \<Rightarrow>
                      (case Func m (VPtr (Some req)) st1 of
                         (res, st2) \<Rightarrow> (res, [VPtr (Some req)], st2))
                  | _ \<Rightarrow> (Panicked ''reflect: Call using pointer as another type'', [], st1)))))"

section \<open>The method registry\<close>

definition hasSuffix :: "string \<Rightarrow> string \<Rightarrow> bool" where
  "hasSuffix s suf = (length suf \<le> length s \<and> drop (length s - length suf) s = suf)"

definition TrimSuffix :: "string \<Rightarrow> string \<Rightarrow> string" where
  "TrimSuffix s suf = (if hasSuffix s suf then take (length s - length suf) s else s)"

definition TrimPrefix :: "string \<Rightarrow> string \<Rightarrow> string" where
  "TrimPrefix s pre = (if hasPrefix s pre then drop (length pre) s else s)"

text \<open>
  \<open>strings.ToLower\<close> on ASCII text. Method names matched by the version patterns and
  Go import paths are ASCII.
\<close>

definition to_lower :: "char \<Rightarrow> char" where
  "to_lower c = (if is_upper c then char_of (of_char c + (32::nat)) else c)"

definition ToLower :: "string \<Rightarrow> string" where
  "ToLower s = map to_lower s"

text \<open>\<open>reMethodVersion\<close> is \<open>^V\d+$\<close>; \<open>reErrorsVersion\<close> is \<open>^ErrorsV(\d+)$\<close>.\<close>

definition reMethodVersion :: "string \<Rightarrow> bool" where
  "reMethodVersion name =
     (case name of
        c # ds \<Rightarrow> c = CHR ''V'' \<and> ds \<noteq> [] \<and> list_all is_digit ds
      | [] \<Rightarrow> False)"

definition reErrorsVersion :: "string \<Rightarrow> string option" where
  "reErrorsVersion name =
     (if take 7 name = ''ErrorsV'' \<and> drop 7 name \<noteq> [] \<and> list_all is_digit (drop 7 name)
      then Some (drop 7 name) else None)"

text \<open>
  What \<open>bindErrors\<close> sees of the value an accessor returns, after the \<open>Elem\<close> that
  unwraps the interface: nothing usable (the reflective call or \<open>Elem\<close> panics), a nil
  interface, a value that is not a pointer, a pointer to something that is not a struct,
  or a pointer to a struct with its fields (name, name and package of the field's type,
  tag).
\<close>

record err_field =
  ef_Name :: string
  ef_TypeName :: string
  ef_TypePkgPath :: string
  ef_Tag :: tag

datatype errors_var =
    EvPanics string
  | EvNil
  | EvNotPtr
  | EvPtrNotStruct
  | EvPtrStruct "err_field list"

text \<open>
  A method as reflection lists it: its name, \<open>String()\<close> and type of every parameter
  (receiver first) and of every result, the function, and what calling it as an accessor
  gives.
\<close>

record go_method =
  m_Name :: string
  m_In :: "(string \<times> gotype) list"
  m_Out :: "(string \<times> gotype) list"
  m_Func :: handler
  m_Errors :: errors_var

text \<open>
  A service value: \<open>%T\<close> of it, the package path of its type (empty for a pointer
  type), whether its kind is \<open>Ptr\<close>, the package path of the pointee, and its methods.
\<close>

record service =
  s_TypeString :: string
  s_PkgPath :: string
  s_IsPtr :: bool
  s_ElemPkgPath :: string
  s_Methods :: "go_method list"

definition quote1 :: "string \<Rightarrow> string" where
  "quote1 s = [char_of (39::nat)] @ s @ [char_of (39::nat)]"

definition service_PkgPath :: "service \<Rightarrow> string" where
  "service_PkgPath m = (if s_PkgPath m = [] \<and> s_IsPtr m then s_ElemPkgPath m else s_PkgPath m)"

definition getMethodPath :: "service \<Rightarrow> string \<Rightarrow> go_error + string" where
  "getMethodPath m trimPrefix0 =
     (let trimPrefix = TrimSuffix trimPrefix0 ''/'';
          path = service_PkgPath m
      in if \<not> hasPrefix path trimPrefix
         then Inl (PlainError (''invalid trim prefix '' @ quote1 trimPrefix @ '' for '' @ quote1 path))
         else Inr (TrimPrefix path trimPrefix))"

fun descs_loop :: "re_lib \<Rightarrow> string \<Rightarrow> go_method list \<Rightarrow> MethodDesc list \<Rightarrow> go_error + MethodDesc list" where
  "descs_loop re path [] res = Inr res"
| "descs_loop re path (goMethod # rest) res =
     (if reMethodVersion (m_Name goMethod) then
        if length (m_In goMethod) \<noteq> 3 \<or> fst (m_In goMethod ! 1) \<noteq> ''context.Context''
        then Inl (PlainError (''invalid method '' @ m_Name goMethod @
                    '' signature, must be (context.Context, <request type>)''))
        else if length (m_Out goMethod) \<noteq> 2 \<or> fst (m_Out goMethod ! 1) \<noteq> ''error''
        then Inl (PlainError (''invalid method '' @ m_Name goMethod @
                    '' return signature, must be (<response type>), error''))
        else (case getValidators re (snd (m_In goMethod ! 2)) [] [] of
                Inl err \<Rightarrow> Inl err
              | Inr validators' \<Rightarrow>
                  descs_loop re path rest
                    (res @ [\<lparr>Path = path @ ''/'' @ ToLower (m_Name goMethod),
                             Request = snd (m_In goMethod ! 2),
                             Response = snd (m_Out goMethod ! 0),
                             Func = m_Func goMethod,
                             Errors = [],
                             Validators = validators'\<rparr>]))
      else descs_loop re path rest res)"

definition descsFromMethod :: "re_lib \<Rightarrow> service \<Rightarrow> string \<Rightarrow> go_error + MethodDesc list" where
  "descsFromMethod re m trimPrefix =
     (case getMethodPath m trimPrefix of
        Inl err \<Rightarrow> Inl err
      | Inr path \<Rightarrow> descs_loop re path (s_Methods m) [])"

text \<open>
  The registry \<open>Rpc.methods\<close> maps a path to a descriptor; a path without an entry reads
  as the nil pointer. \<open>bindErrors\<close> writes through the descriptors it is given, so what
  it wrote before an error or a panic stays written: it returns the registry with its
  status. Of the closure it stores in each field of the catalog only the panic of
  \<open>Value.Set\<close> on an unexported field is modelled.
\<close>

type_synonym registry = "(string \<times> MethodDesc) list"

fun bind_fields :: "string \<Rightarrow> err_field list \<Rightarrow> registry \<Rightarrow> unit outcome \<times> registry" where
  "bind_fields methodPath [] methods = (Return (), methods)"
| "bind_fields methodPath (ft # rest) methods =
     (if ef_TypeName ft \<noteq> ''ErrorFunc'' \<or> ef_TypePkgPath ft \<noteq> ''github.com/go-qbit/rpc''
      then (Fail (PlainError (''error type for '' @ ef_Name ft @
                     '' must be github.com/go-qbit/rpc.ErrorFunc'')), methods)
      else (case map_of methods methodPath of
              None \<Rightarrow> (Panicked ''invalid memory address or nil pointer dereference'', methods)
            | Some md \<Rightarrow>
                if \<not> IsExported (ef_Name ft)
                then (Panicked ''reflect: reflect.Value.Set using value obtained using unexported field'',
                      al_set methods methodPath
                        (md\<lparr>Errors := al_set (Errors md) (ef_Name ft) (tag_Get (ef_Tag ft) ''desc'')\<rparr>))
                else bind_fields methodPath rest
                  (al_set methods methodPath
                     (md\<lparr>Errors := al_set (Errors md) (ef_Name ft) (tag_Get (ef_Tag ft) ''desc'')\<rparr>))))"

fun bind_loop :: "string \<Rightarrow> go_method list \<Rightarrow> registry \<Rightarrow> unit outcome \<times> registry" where
  "bind_loop path [] methods = (Return (), methods)"
| "bind_loop path (goMethod # rest) methods =
     (case reErrorsVersion (m_Name goMethod) of
        None \<Rightarrow> bind_loop path rest methods
      | Some n \<Rightarrow>
          (case m_Errors goMethod of
             EvPanics msg \<Rightarrow> (Panicked msg, methods)
           | EvPtrStruct efs \<Rightarrow>
               (case bind_fields (path @ ''/v'' @ n) efs methods of
                  (Return _, methods') \<Rightarrow> bind_loop path rest methods'
                | r \<Rightarrow> r)
           | _ \<Rightarrow> (Fail (PlainError ''errors variable must be a pointer to a structure''), methods)))"

definition bindErrors :: "service \<Rightarrow> string \<Rightarrow> registry \<Rightarrow> unit outcome \<times> registry" where
  "bindErrors m trimPrefix methods =
     (case getMethodPath m trimPrefix of
        Inl err \<Rightarrow> (Fail err, methods)
      | Inr path \<Rightarrow> bind_loop path (s_Methods m) methods)"

text \<open>
  \<open>RegisterMethod\<close>. Its last step generates the documentation and drops it; the step
  matters only when it panics, which the parameter \<open>swagger_panics\<close> reports.
\<close>

definition RegisterMethod :: "re_lib \<Rightarrow> (registry \<Rightarrow> string option) \<Rightarrow> string \<Rightarrow> registry \<Rightarrow> service \<Rightarrow> unit outcome \<times> registry" where
  "RegisterMethod re swagger_panics trimPrefix methods method =
     (case descsFromMethod re method trimPrefix of
        Inl err \<Rightarrow>
          (Fail (PlainError (''cannot register mehtod '' @ s_TypeString method @ '': '' @
                             error_text err)), methods)
      | Inr mds \<Rightarrow>
          (case bindErrors method trimPrefix (foldl (\<lambda>ms md. al_set ms (Path md) md) methods mds) of
             (Fail err, methods') \<Rightarrow>
               (Fail (PlainError (''cannot bind errors for method '' @ s_TypeString method @
                                  '': '' @ error_text err)), methods')
           | (Panicked msg, methods') \<Rightarrow> (Panicked msg, methods')
           | (Return _, methods') \<Rightarrow>
               (case swagger_panics methods' of
                  Some msg \<Rightarrow> (Panicked msg, methods')
                | None \<Rightarrow> (Return (), methods'))))"

section \<open>Schema introspection over type graphs\<close>

text \<open>
  Go struct types may refer to themselves through a pointer, a slice or a map, so the
  types the two projections walk form a graph: a struct type is named by a key and its
  declaration (package path, name, fields) is looked up in a table. The walks are
  recursive functions of the source with nothing in the language to bound them; the
  model gives them fuel, and \<open>None\<close> is the walk that used it up.
\<close>

datatype tref =
    RScalar scalar
  | RPtr tref
  | RSlice tref
  | RArray tref
  | RMap tref tref
  | RFile
  | RIface
  | RStruct string
  | ROther string

datatype rfield = RField (rf_Name: string) (rf_Type: tref) (rf_Tag: tag)

record type_decl =
  td_PkgPath :: string
  td_Name :: string
  td_Fields :: "rfield list"

type_synonym decls = "(string \<times> type_decl) list"

definition decl_of :: "decls \<Rightarrow> string \<Rightarrow> type_decl" where
  "decl_of ds key =
     (case map_of ds key of
        Some d \<Rightarrow> d
      | None \<Rightarrow> \<lparr>td_PkgPath = [], td_Name = [], td_Fields = []\<rparr>)"

fun rkind_of :: "tref \<Rightarrow> kind" where
  "rkind_of (RScalar s) = kind_of_scalar s"
| "rkind_of (RPtr _) = KPtr"
| "rkind_of (RSlice _) = KSlice"
| "rkind_of (RArray _) = KArray"
| "rkind_of (RMap _ _) = KMap"
| "rkind_of RFile = KInterface"
| "rkind_of RIface = KInterface"
| "rkind_of (RStruct _) = KStruct"
| "rkind_of (ROther _) = KOther"

definition rsf_of :: "rfield \<Rightarrow> struct_field" where
  "rsf_of f = StructField (rf_Name f) (rkind_of (rf_Type f)) (rf_Tag f)"

text \<open>\<open>Rpc.typeName\<close>, called on struct types.\<close>

definition replace_char :: "char \<Rightarrow> char \<Rightarrow> string \<Rightarrow> string" where
  "replace_char a b s = map (\<lambda>c. if c = a then b else c) s"

definition typeName :: "string \<Rightarrow> type_decl \<Rightarrow> string" where
  "typeName trimPrefix d =
     ToLower (replace_char (CHR ''-'') (CHR ''_'') (replace_char (CHR ''.'') (CHR ''_'')
       (replace_char (CHR ''/'') (CHR ''_'')
          (TrimPrefix (TrimPrefix (td_PkgPath d) trimPrefix @ ''/'' @ td_Name d) ''/''))))"

definition scalar_schema :: "scalar \<Rightarrow> schema" where
  "scalar_schema s =
     (if s = SString then Schema [] [] ''string'' [] [] None None None []
      else if s \<in> {SInt, SInt64, SUint, SUint32, SUint64}
      then Schema [] [] ''integer'' ''int64'' [] None None None []
      else if s \<in> {SInt8, SInt16, SInt32, SUint8, SUint16}
      then Schema [] [] ''integer'' ''int32'' [] None None None []
      else if s = SBool then Schema [] [] ''boolean'' [] [] None None None []
      else if s = SFloat32 then Schema [] [] ''number'' ''float'' [] None None None []
      else Schema [] [] ''number'' ''double'' [] None None None [])"

definition json_name :: "string \<Rightarrow> tag \<Rightarrow> string" where
  "json_name name tg =
     (case tag_Lookup tg ''json'' of
        Some jsonTag \<Rightarrow> takeWhile (\<lambda>c. c \<noteq> CHR '','') jsonTag
      | None \<Rightarrow> name)"

type_synonym storage = "(string \<times> schema) list"

text \<open>
  \<open>Rpc.getSchema\<close>. In the struct case the table is consulted first, the fields are
  walked next, and the struct's entry is stored last.
\<close>

fun getSchema :: "nat \<Rightarrow> re_lib \<Rightarrow> string \<Rightarrow> decls \<Rightarrow> tref \<Rightarrow> storage \<Rightarrow> (schema \<times> storage) outcome option"
and getSchema_fields :: "nat \<Rightarrow> re_lib \<Rightarrow> string \<Rightarrow> decls \<Rightarrow> rfield list \<Rightarrow> storage \<Rightarrow>
      (string \<times> schema) list \<Rightarrow> (string \<times> schema) list \<Rightarrow>
      ((string \<times> schema) list \<times> (string \<times> schema) list \<times> storage) outcome option" where
  "getSchema 0 re trimPrefix ds t st = None"
| "getSchema (Suc n) re trimPrefix ds (RPtr e) st = getSchema n re trimPrefix ds e st"
| "getSchema (Suc n) re trimPrefix ds (RScalar s) st = Some (Return (scalar_schema s, st))"
| "getSchema (Suc n) re trimPrefix ds (RSlice e) st =
     (case getSchema n re trimPrefix ds e st of
        Some (Return (itemsSchema, st')) \<Rightarrow>
          Some (Return (Schema [] [] ''array'' [] [] (Some itemsSchema) None None [], st'))
      | r \<Rightarrow> r)"
| "getSchema (Suc n) re trimPrefix ds (RArray e) st =
     (case getSchema n re trimPrefix ds e st of
        Some (Return (itemsSchema, st')) \<Rightarrow>
          Some (Return (Schema [] [] ''array'' [] [] (Some itemsSchema) None None [], st'))
      | r \<Rightarrow> r)"
| "getSchema (Suc n) re trimPrefix ds (RStruct key) st =
     (let name = typeName trimPrefix (decl_of ds key) in
      if map_of st name \<noteq> None
      then Some (Return (Schema (''#/components/schemas/'' @ name) [] [] [] [] None None None [], st))
      else
        (case getSchema_fields n re trimPrefix ds (td_Fields (decl_of ds key)) st [] [] of
           None \<Rightarrow> None
         | Some (Panicked msg) \<Rightarrow> Some (Panicked msg)
         | Some (Fail err) \<Rightarrow> Some (Fail err)
         | Some (Return (jsonDataFields, fileFields, st')) \<Rightarrow>
             Some (Return
               (Schema (''#/components/schemas/'' @ name) [] [] [] [] None None None [],
                al_set st' name
                  (Schema [] [] ''object'' []
                     (if fileFields \<noteq> []
                      then al_set fileFields ''json_data''
                             (Schema [] [] ''object'' [] jsonDataFields None None None [])
                      else jsonDataFields)
                     None None None [])))))"
| "getSchema (Suc n) re trimPrefix ds RFile st =
     Some (Return (Schema [] [] ''string'' ''binary'' [] None None None [], st))"
| "getSchema (Suc n) re trimPrefix ds RIface st =
     Some (Return (Schema [] [] ''object'' [] [] None None None [], st))"
| "getSchema (Suc n) re trimPrefix ds (RMap k e) st =
     Some (Return (Schema [] [] ''object'' [] [] None None None [], st))"
| "getSchema (Suc n) re trimPrefix ds (ROther str) st = Some (Panicked (''Unknown type '' @ str))"
| "getSchema_fields n re trimPrefix ds [] st jsonDataFields fileFields =
     Some (Return (jsonDataFields, fileFields, st))"
| "getSchema_fields n re trimPrefix ds (f # fs) st jsonDataFields fileFields =
     (if \<not> IsExported (rf_Name f) \<or> json_name (rf_Name f) (rf_Tag f) = ''-''
      then getSchema_fields n re trimPrefix ds fs st jsonDataFields fileFields
      else
        (case getSchema n re trimPrefix ds (rf_Type f) st of
           None \<Rightarrow> None
         | Some (Panicked msg) \<Rightarrow> Some (Panicked msg)
         | Some (Fail err) \<Rightarrow> Some (Fail err)
         | Some (Return (fieldSchema, st')) \<Rightarrow>
             (case addFieldRestrictions re (rsf_of f)
                     (set_Description (tag_Get (rf_Tag f) ''desc'') fieldSchema) of
                Inl err \<Rightarrow> Some (Panicked (''Invalid validator value: '' @ error_text err))
              | Inr fieldSchema' \<Rightarrow>
                  if rf_Type f = RFile
                  then getSchema_fields n re trimPrefix ds fs st' jsonDataFields
                         (al_set fileFields (json_name (rf_Name f) (rf_Tag f)) fieldSchema')
                  else getSchema_fields n re trimPrefix ds fs st'
                         (al_set jsonDataFields (json_name (rf_Name f) (rf_Tag f)) fieldSchema')
                         fileFields)))"

text \<open>
  \<open>addTsStructTypes\<close> of the TypeScript projection. The name a struct is stored under
  (\<open>toTsTypeName\<close>) is a key the walk writes and never reads; it is a parameter here.
  The table of overrides holds \<open>time.Time\<close> only.
\<close>

type_synonym ts_types = "(string \<times> string) list"

definition typesOverrides :: "string \<Rightarrow> string" where
  "typesOverrides k = (if k = ''time.Time'' then ''string'' else [])"

fun scalar_Name :: "scalar \<Rightarrow> string" where
  "scalar_Name SBool = ''bool''"
| "scalar_Name SInt = ''int''"
| "scalar_Name SInt8 = ''int8''"
| "scalar_Name SInt16 = ''int16''"
| "scalar_Name SInt32 = ''int32''"
| "scalar_Name SInt64 = ''int64''"
| "scalar_Name SUint = ''uint''"
| "scalar_Name SUint8 = ''uint8''"
| "scalar_Name SUint16 = ''uint16''"
| "scalar_Name SUint32 = ''uint32''"
| "scalar_Name SUint64 = ''uint64''"
| "scalar_Name SFloat32 = ''float32''"
| "scalar_Name SFloat64 = ''float64''"
| "scalar_Name SString = ''string''"

text \<open>
  \<open>st.PkgPath() + "." + st.Name()\<close>: both parts are empty for unnamed types (pointers,
  slices, arrays, maps, the empty interface); built-in scalars have a name and no package.
\<close>

fun type_ident :: "decls \<Rightarrow> tref \<Rightarrow> string" where
  "type_ident ds (RStruct key) = td_PkgPath (decl_of ds key) @ ''.'' @ td_Name (decl_of ds key)"
| "type_ident ds (RScalar s) = ''.'' @ scalar_Name s"
| "type_ident ds RFile = ''github.com/go-qbit/rpc.File''"
| "type_ident ds _ = ''.''"

fun addTsStructTypes :: "nat \<Rightarrow> (type_decl \<Rightarrow> string) \<Rightarrow> decls \<Rightarrow> tref \<Rightarrow> ts_types \<Rightarrow> ts_types outcome option"
and addTs_fields :: "nat \<Rightarrow> (type_decl \<Rightarrow> string) \<Rightarrow> decls \<Rightarrow> rfield list \<Rightarrow> ts_types \<Rightarrow> ts_types outcome option" where
  "addTsStructTypes 0 toTsTypeName ds st m = None"
| "addTsStructTypes (Suc n) toTsTypeName ds st m =
     (if typesOverrides (type_ident ds st) \<noteq> [] then Some (Return m)
      else
        (case st of
           RPtr e \<Rightarrow> addTsStructTypes n toTsTypeName ds e m
         | RSlice e \<Rightarrow> addTsStructTypes n toTsTypeName ds e m
         | RArray e \<Rightarrow> addTsStructTypes n toTsTypeName ds e m
         | RStruct key \<Rightarrow>
             addTs_fields n toTsTypeName ds (td_Fields (decl_of ds key))
               (al_set m (toTsTypeName (decl_of ds key)) key)
         | RMap k e \<Rightarrow> addTsStructTypes n toTsTypeName ds e m
         | RScalar s \<Rightarrow> Some (Return m)
         | RFile \<Rightarrow> Some (Return m)
         | RIface \<Rightarrow> Some (Return m)
         | ROther str \<Rightarrow> Some (Panicked (''Unknown kind '' @ str))))"
| "addTs_fields n toTsTypeName ds [] m = Some (Return m)"
| "addTs_fields n toTsTypeName ds (field # rest) m =
     (if tag_Get (rf_Tag field) ''json'' \<noteq> ''-''
      then (case addTsStructTypes n toTsTypeName ds (rf_Type field) m of
              Some (Return m') \<Rightarrow> addTs_fields n toTsTypeName ds rest m'
            | r \<Rightarrow> r)
      else addTs_fields n toTsTypeName ds rest m)"

section \<open>The test service of the repository and other sample inputs\<close>

text \<open>
  The request types of \<open>internal/test/method/hello\<close> (\<open>ReqV1\<close>, \<open>StructV1\<close>, \<open>ReqV3\<close>).
\<close>

definition StructV1 :: gotype where
  "StructV1 = TStruct
     [Field ''F1'' (TScalar SUint) [(''json'', ''f1''), (''minimum'', ''1''), (''maximum'', ''200'')]]"

definition IntParam :: field where
  "IntParam = Field ''IntParam'' (TScalar SInt)
     [(''json'', ''int_param''), (''desc'', ''An integer parameter''),
      (''minimum'', ''100''), (''maximum'', ''200'')]"

definition ReqV1_fields :: "field list" where
  "ReqV1_fields =
     [IntParam,
      Field ''StrParam'' (TScalar SString)
        [(''json'', ''str_param''), (''desc'', ''A string parameter''), (''pattern'', ''.{2,}'')],
      Field ''ArrParam'' (TSlice (TScalar SString))
        [(''json'', ''arr_param''), (''desc'', ''An array parameter'')],
      Field ''StructParam'' StructV1 [(''json'', ''struct_param'')],
      Field ''StructPtrParam'' (TPtr StructV1) [(''json'', ''struct_ptr_param'')],
      Field ''WithErr'' (TScalar SBool) [(''json'', ''with_err'')]]"

definition ReqV1 :: gotype where
  "ReqV1 = TStruct ReqV1_fields"

definition ReqV3 :: gotype where
  "ReqV3 = TStruct
     [Field ''IntParam'' (TScalar SInt) [(''json'', ''int_param''), (''desc'', ''An integer parameter'')],
      Field ''Content'' TFile [(''json'', ''content''), (''desc'', ''Some file'')]]"

text \<open>
  A regular-expression engine that knows the one pattern of the test service: \<open>.{2,}\<close>
  matches a text with two adjacent characters other than a newline.
\<close>

fun two_adjacent :: "string \<Rightarrow> bool" where
  "two_adjacent (a # b # cs) =
     ((a \<noteq> CHR 0x0A \<and> b \<noteq> CHR 0x0A) \<or> two_adjacent (b # cs))"
| "two_adjacent _ = False"

definition re_hello :: re_lib where
  "re_hello = \<lparr>re_Compile = (\<lambda>p. None),
               re_MatchString = (\<lambda>p s. p = ''.{2,}'' \<and> two_adjacent s)\<rparr>"



definition no_body :: reader where
  "no_body = \<lparr>rd_data = [], rd_err = None\<rparr>"

text \<open>A handler that echoes its request and leaves the files alone.\<close>

definition echo :: handler where
  "echo req st = (Return req, st)"

definition desc_of :: "gotype \<Rightarrow> vmap \<Rightarrow> handler \<Rightarrow> MethodDesc" where
  "desc_of t vs h =
     \<lparr>Path = ''/hello/v1'', Request = TPtr t, Response = TPtr t, Func = h, Errors = [],
      Validators = vs\<rparr>"

text \<open>
  The handler \<open>V3\<close> of the test service: it reads the uploaded file to its end and
  answers with the number of bytes; it does not close the file.
\<close>

definition RespV3 :: "int \<Rightarrow> int \<Rightarrow> gval" where
  "RespV3 i n = VPtr (Some (VStruct
     [(Field ''IntParam'' (TScalar SInt) [(''json'', ''int_param'')], VInt i),
      (Field ''ContentLength'' (TScalar SInt) [(''json'', ''content_length'')], VInt n)]))"

definition hello_V3 :: handler where
  "hello_V3 req st =
     (case req of
        VPtr (Some (VStruct [(f1, VInt i), (f2, VFile (Buffer bs))])) \<Rightarrow>
          (Return (RespV3 i (int (length bs))), st)
      | VPtr (Some (VStruct [(f1, VInt i), (f2, VFile (TmpFile k))])) \<Rightarrow>
          (if k < length st \<and> t_open (st ! k)
           then (Return (RespV3 i (int (length (t_content (st ! k)) - t_offset (st ! k)))),
                 st[k := (st ! k)\<lparr>t_offset := length (t_content (st ! k))\<rparr>])
           else (Fail (PlainError ''read: file already closed''), st))
      | _ \<Rightarrow> (Panicked ''invalid memory address or nil pointer dereference'', st))"

text \<open>
  A multipart body with a three-byte file part for the field \<open>content\<close> followed by a
  JSON part, and two decoders for the JSON part: one that sets \<open>IntParam\<close> to 7, one
  that rejects its input.
\<close>

definition upload_parts :: "part_event list" where
  "upload_parts =
     [NextPart \<lparr>FormName = ''content'', p_body = \<lparr>rd_data = [1, 2, 3], rd_err = None\<rparr>\<rparr>,
      NextPart \<lparr>FormName = ''json_data'', p_body = \<lparr>rd_data = [], rd_err = None\<rparr>\<rparr>]"

definition io_upload :: "bool \<Rightarrow> io_env" where
  "io_upload good =
     \<lparr>json_Decode = (\<lambda>r req. if good then Inr (set_FieldByName ''IntParam'' (VInt 7) req)
                                else Inl (PlainError ''unexpected end of JSON input'')),
      multipart_parts = (\<lambda>r boundary. upload_parts),
      CreateTemp_err = None, Write_err = None, Seek_err = None\<rparr>"

text \<open>
  A self-referential struct, \<open>type Node struct { Value int; Next *Node }\<close>, and a
  struct that is not, \<open>type Leaf struct { Value int }\<close>.
\<close>

definition Node_decls :: decls where
  "Node_decls =
     [(''Node'', \<lparr>td_PkgPath = ''a/b/tree'', td_Name = ''Node'',
                  td_Fields = [RField ''Value'' (RScalar SInt) [(''json'', ''value'')],
                               RField ''Next'' (RPtr (RStruct ''Node'')) [(''json'', ''next'')]]\<rparr>),
      (''Leaf'', \<lparr>td_PkgPath = ''a/b/tree'', td_Name = ''Leaf'',
                  td_Fields = [RField ''Value'' (RScalar SInt) [(''json'', ''value'')]]\<rparr>)]"

text \<open>
  Services as reflection shows them. \<open>svc pkg ms\<close> is a value of a pointer type
  \<open>*hello.Method\<close> declared in package \<open>pkg\<close>, with the methods \<open>ms\<close>. A version method
  takes the receiver, a context and a pointer to its request and returns its response
  and an error; an accessor takes the receiver alone and returns an \<open>interface{}\<close>;
  \<open>Caption\<close> and \<open>Description\<close> take the receiver and a context. The bodies of the
  handlers play no part in registration: \<open>echo\<close> stands for them.
\<close>

definition svc :: "string \<Rightarrow> go_method list \<Rightarrow> service" where
  "svc pkg ms =
     \<lparr>s_TypeString = ''*hello.Method'', s_PkgPath = [], s_IsPtr = True,
      s_ElemPkgPath = pkg, s_Methods = ms\<rparr>"

definition plain_method :: "string \<Rightarrow> go_method" where
  "plain_method name =
     \<lparr>m_Name = name,
      m_In = [(''*hello.Method'', TPtr (TStruct [])), (''context.Context'', TIface)],
      m_Out = [(''string'', TScalar SString)],
      m_Func = echo,
      m_Errors = EvPanics ''reflect: Call with too few input arguments''\<rparr>"

definition version_method :: "string \<Rightarrow> gotype \<Rightarrow> gotype \<Rightarrow> go_method" where
  "version_method name req resp =
     \<lparr>m_Name = name,
      m_In = [(''*hello.Method'', TPtr (TStruct [])), (''context.Context'', TIface),
              (''*hello.Req'', TPtr req)],
      m_Out = [(''*hello.Resp'', resp), (''error'', TIface)],
      m_Func = echo,
      m_Errors = EvPanics ''reflect: Call with too few input arguments''\<rparr>"

definition accessor :: "string \<Rightarrow> errors_var \<Rightarrow> go_method" where
  "accessor name ev =
     \<lparr>m_Name = name,
      m_In = [(''*hello.Method'', TPtr (TStruct []))],
      m_Out = [(''interface {}'', TIface)],
      m_Func = echo,
      m_Errors = ev\<rparr>"

definition error_field :: "string \<Rightarrow> string \<Rightarrow> err_field" where
  "error_field name desc =
     \<lparr>ef_Name = name, ef_TypeName = ''ErrorFunc'', ef_TypePkgPath = ''github.com/go-qbit/rpc'',
      ef_Tag = [(''desc'', desc)]\<rparr>"

definition ReqV2 :: gotype where
  "ReqV2 = TStruct
     [Field ''IntParam'' (TScalar SInt) [(''json'', ''int_param''), (''desc'', ''An integer parameter'')]]"

definition hello_methods :: "go_method list" where
  "hello_methods =
     [plain_method ''Caption'',
      plain_method ''Description'',
      accessor ''ErrorsV1'' (EvPtrStruct
        [error_field ''Error1'' ''Error 1'', error_field ''Error2'' ''Error 2'',
         error_field ''Error3'' ''Error 3'']),
      version_method ''V1'' ReqV1 (TPtr (TStruct [])),
      version_method ''V2'' ReqV2 (TScalar SInt),
      version_method ''V3'' ReqV3 (TPtr (TStruct []))]"

text \<open>The test service, and the same service declared in a package with capitals.\<close>

definition hello_service :: service where
  "hello_service = svc ''github.com/go-qbit/rpc/internal/test/method/hello'' hello_methods"

definition Acme_service :: service where
  "Acme_service = svc ''github.com/Acme/Hello'' [version_method ''V2'' ReqV2 (TScalar SInt)]"

text \<open>
  Services that declare an error catalog for version 2 and no method \<open>V2\<close>: with a
  catalog of one error, with an empty catalog, and with an accessor that returns the
  catalog struct itself instead of a pointer to it.
\<close>

definition orphan_service :: "errors_var \<Rightarrow> service" where
  "orphan_service ev =
     svc ''a/b/hello'' [accessor ''ErrorsV2'' ev, version_method ''V1'' ReqV2 (TScalar SInt)]"


text \<open>A request struct with the bounded field alone, as the documentation walk sees it.\<close>

definition Req_decls :: decls where
  "Req_decls =
     [(''Req'', \<lparr>td_PkgPath = ''a/b/hello'', td_Name = ''Req'',
                 td_Fields = [RField ''IntParam'' (RScalar SInt)
                    [(''json'', ''int_param''), (''desc'', ''An integer parameter''),
                     (''minimum'', ''100''), (''maximum'', ''200'')]]\<rparr>)]"




definition orphan_desc :: MethodDesc where
  "orphan_desc =
     \<lparr>Path = ''/hello/v1'', Request = TPtr ReqV2, Response = TScalar SInt, Func = echo,
      Errors = [], Validators = []\<rparr>"

section \<open>Claims\<close>

subsection \<open>The gzip matchers and the tokens of the header\<close>

text \<open>
  A text without a comma is an element of the header exactly when it occurs between the
  start of the header or a comma, and a comma or the end of the header.
\<close>

lemma split_comma_not_Nil: "split_comma s \<noteq> []"
  by (induction s) (auto split: list.splits)

lemma hd_split_comma: "hd (split_comma s) = takeWhile (\<lambda>c. c \<noteq> CHR '','') s"
  using split_comma_not_Nil by (induction s) (auto split: list.splits)

lemma tl_split_comma_Cons:
  "tl (split_comma (c # cs)) = (if c = CHR '','' then split_comma cs else tl (split_comma cs))"
  using split_comma_not_Nil [of cs] by (auto split: list.splits)

lemma takeWhile_token:
  assumes "CHR '','' \<notin> set t"
  shows "(t = takeWhile (\<lambda>c. c \<noteq> CHR '','') s) =
         (\<exists>post. s = t @ post \<and> (post = [] \<or> hd post = CHR '',''))"
proof
  assume t: "t = takeWhile (\<lambda>c. c \<noteq> CHR '','') s"
  let ?d = "dropWhile (\<lambda>c. c \<noteq> CHR '','') s"
  have "s = t @ ?d" using t by simp
  moreover have "?d = [] \<or> hd ?d = CHR '',''"
    using hd_dropWhile [of "\<lambda>c. c \<noteq> CHR '',''" s] by auto
  ultimately show "\<exists>post. s = t @ post \<and> (post = [] \<or> hd post = CHR '','')" by blast
next
  assume "\<exists>post. s = t @ post \<and> (post = [] \<or> hd post = CHR '','')"
  then obtain post where s: "s = t @ post" and p: "post = [] \<or> hd post = CHR '',''" by blast
  from p have "takeWhile (\<lambda>c. c \<noteq> CHR '','') post = []"
    by (cases post) auto
  moreover have "takeWhile (\<lambda>c. c \<noteq> CHR '','') (t @ post) =
      t @ takeWhile (\<lambda>c. c \<noteq> CHR '','') post"
    by (rule takeWhile_append2) (use assms in auto)
  ultimately show "t = takeWhile (\<lambda>c. c \<noteq> CHR '','') s"
    using s by simp
qed

lemma split_comma_no_comma: "t \<in> set (split_comma s) \<Longrightarrow> CHR '','' \<notin> set t"
proof (induction s arbitrary: t)
  case Nil
  then show ?case by simp
next
  case (Cons c cs)
  then show ?case
    using split_comma_not_Nil [of cs]
    by (cases "split_comma cs") (auto split: if_splits)
qed

lemma mem_split_comma:
  "t \<in> set (split_comma s) \<longleftrightarrow> t = hd (split_comma s) \<or> t \<in> set (tl (split_comma s))"
  using split_comma_not_Nil [of s] by (cases "split_comma s") auto

lemma tl_split_comma_iff:
  assumes nc: "CHR '','' \<notin> set t"
  shows "t \<in> set (tl (split_comma s)) \<longleftrightarrow>
         (\<exists>pre post. s = pre @ t @ post \<and> pre \<noteq> [] \<and> last pre = CHR '','' \<and>
                     (post = [] \<or> hd post = CHR '',''))"
proof (induction s)
  case Nil
  show ?case by simp
next
  case (Cons c cs)
  show ?case
  proof (cases "c = CHR '',''")
    case True
    have "t \<in> set (tl (split_comma (c # cs))) \<longleftrightarrow> t \<in> set (split_comma cs)"
      using True by (simp add: tl_split_comma_Cons del: split_comma.simps)
    also have "\<dots> \<longleftrightarrow> t = takeWhile (\<lambda>c. c \<noteq> CHR '','') cs \<or> t \<in> set (tl (split_comma cs))"
      using mem_split_comma [of t cs] by (simp add: hd_split_comma)
    also have "\<dots> \<longleftrightarrow> (\<exists>post. cs = t @ post \<and> (post = [] \<or> hd post = CHR '','')) \<or>
        (\<exists>pre post. cs = pre @ t @ post \<and> pre \<noteq> [] \<and> last pre = CHR '','' \<and>
                     (post = [] \<or> hd post = CHR '',''))"
      using takeWhile_token [OF nc, of cs] Cons.IH by simp
    also have "\<dots> \<longleftrightarrow> (\<exists>pre post. c # cs = pre @ t @ post \<and> pre \<noteq> [] \<and> last pre = CHR '','' \<and>
                     (post = [] \<or> hd post = CHR '',''))"
    proof
      assume "(\<exists>post. cs = t @ post \<and> (post = [] \<or> hd post = CHR '','')) \<or>
        (\<exists>pre post. cs = pre @ t @ post \<and> pre \<noteq> [] \<and> last pre = CHR '','' \<and>
                     (post = [] \<or> hd post = CHR '',''))"
      then show "\<exists>pre post. c # cs = pre @ t @ post \<and> pre \<noteq> [] \<and> last pre = CHR '','' \<and>
                     (post = [] \<or> hd post = CHR '','')"
      proof
        assume "\<exists>post. cs = t @ post \<and> (post = [] \<or> hd post = CHR '','')"
        then obtain post where "cs = t @ post" "post = [] \<or> hd post = CHR '',''" by blast
        with True have "c # cs = [c] @ t @ post \<and> [c] \<noteq> [] \<and> last [c] = CHR '','' \<and>
                     (post = [] \<or> hd post = CHR '','')" by simp
        then show ?thesis by blast
      next
        assume "\<exists>pre post. cs = pre @ t @ post \<and> pre \<noteq> [] \<and> last pre = CHR '','' \<and>
                     (post = [] \<or> hd post = CHR '','')"
        then obtain pre post where "cs = pre @ t @ post" "pre \<noteq> []" "last pre = CHR '',''"
          "post = [] \<or> hd post = CHR '',''" by blast
        then have "c # cs = (c # pre) @ t @ post \<and> c # pre \<noteq> [] \<and> last (c # pre) = CHR '','' \<and>
                     (post = [] \<or> hd post = CHR '','')" by simp
        then show ?thesis by blast
      qed
    next
      assume "\<exists>pre post. c # cs = pre @ t @ post \<and> pre \<noteq> [] \<and> last pre = CHR '','' \<and>
                     (post = [] \<or> hd post = CHR '','')"
      then obtain pre post where e: "c # cs = pre @ t @ post" and ne: "pre \<noteq> []"
        and l: "last pre = CHR '',''" and p: "post = [] \<or> hd post = CHR '',''" by blast
      from ne obtain pre' where pre: "pre = c # pre'" using e by (cases pre) auto
      with e have cs: "cs = pre' @ t @ post" by simp
      show "(\<exists>post. cs = t @ post \<and> (post = [] \<or> hd post = CHR '','')) \<or>
        (\<exists>pre post. cs = pre @ t @ post \<and> pre \<noteq> [] \<and> last pre = CHR '','' \<and>
                     (post = [] \<or> hd post = CHR '',''))"
      proof (cases "pre' = []")
        case True
        with cs p show ?thesis by auto
      next
        case False
        with l pre have "last pre' = CHR '',''" by simp
        with cs p False show ?thesis by blast
      qed
    qed
    finally show ?thesis .
  next
    case False
    have "t \<in> set (tl (split_comma (c # cs))) \<longleftrightarrow> t \<in> set (tl (split_comma cs))"
      using False by (simp add: tl_split_comma_Cons del: split_comma.simps)
    also have "\<dots> \<longleftrightarrow> (\<exists>pre post. cs = pre @ t @ post \<and> pre \<noteq> [] \<and> last pre = CHR '','' \<and>
                     (post = [] \<or> hd post = CHR '',''))"
      using Cons.IH .
    also have "\<dots> \<longleftrightarrow> (\<exists>pre post. c # cs = pre @ t @ post \<and> pre \<noteq> [] \<and> last pre = CHR '','' \<and>
                     (post = [] \<or> hd post = CHR '',''))"
    proof
      assume "\<exists>pre post. cs = pre @ t @ post \<and> pre \<noteq> [] \<and> last pre = CHR '','' \<and>
                     (post = [] \<or> hd post = CHR '','')"
      then obtain pre post where "cs = pre @ t @ post" "pre \<noteq> []" "last pre = CHR '',''"
          "post = [] \<or> hd post = CHR '',''" by blast
      then have "c # cs = (c # pre) @ t @ post \<and> c # pre \<noteq> [] \<and> last (c # pre) = CHR '','' \<and>
                     (post = [] \<or> hd post = CHR '','')" by simp
      then show "\<exists>pre post. c # cs = pre @ t @ post \<and> pre \<noteq> [] \<and> last pre = CHR '','' \<and>
                     (post = [] \<or> hd post = CHR '','')" by blast
    next
      assume "\<exists>pre post. c # cs = pre @ t @ post \<and> pre \<noteq> [] \<and> last pre = CHR '','' \<and>
                     (post = [] \<or> hd post = CHR '','')"
      then obtain pre post where e: "c # cs = pre @ t @ post" and ne: "pre \<noteq> []"
        and l: "last pre = CHR '',''" and p: "post = [] \<or> hd post = CHR '',''" by blast
      from ne obtain pre' where pre: "pre = c # pre'" using e by (cases pre) auto
      with e have cs: "cs = pre' @ t @ post" by simp
      from l pre False have ne': "pre' \<noteq> []" by auto
      with l pre have "last pre' = CHR '',''" by simp
      with cs p ne' show "\<exists>pre post. cs = pre @ t @ post \<and> pre \<noteq> [] \<and> last pre = CHR '','' \<and>
                     (post = [] \<or> hd post = CHR '','')" by blast
    qed
    finally show ?thesis .
  qed
qed

lemma token_iff:
  assumes nc: "CHR '','' \<notin> set t"
  shows "t \<in> set (split_comma s) \<longleftrightarrow>
         (\<exists>pre post. s = pre @ t @ post \<and> (pre = [] \<or> last pre = CHR '','') \<and>
                     (post = [] \<or> hd post = CHR '',''))"
proof -
  have "t \<in> set (split_comma s) \<longleftrightarrow>
        (\<exists>post. s = t @ post \<and> (post = [] \<or> hd post = CHR '','')) \<or>
        (\<exists>pre post. s = pre @ t @ post \<and> pre \<noteq> [] \<and> last pre = CHR '','' \<and>
                     (post = [] \<or> hd post = CHR '',''))"
    using mem_split_comma [of t s] takeWhile_token [OF nc, of s] tl_split_comma_iff [OF nc, of s]
    by (simp add: hd_split_comma)
  also have "\<dots> \<longleftrightarrow> (\<exists>pre post. s = pre @ t @ post \<and> (pre = [] \<or> last pre = CHR '','') \<and>
                     (post = [] \<or> hd post = CHR '',''))"
    by (metis append_Nil)
  finally show ?thesis .
qed

text \<open>
  The regular-expression matcher finds exactly the headers that hold the token, and
  the fast matcher never reports a header that does not hold it.
\<close>

lemma reGzip_at_decomp:
  assumes i: "i \<le> length s" and m: "reGzip_at s i"
  shows "\<exists>pre post. s = pre @ ''gzip'' @ post \<and> (pre = [] \<or> last pre = CHR '','') \<and>
                    (post = [] \<or> hd post = CHR '','')"
proof -
  from m have l: "i = 0 \<or> s ! (i - 1) = CHR '',''"
    and g: "take 4 (drop i s) = ''gzip''"
    and r: "i + 4 = length s \<or> s ! (i + 4) = CHR '',''"
    by (simp_all add: reGzip_at_def)
  from g have "length (take 4 (drop i s)) = 4" by simp
  then have len: "i + 4 \<le> length s" by simp
  have "take 4 (drop i s) @ drop 4 (drop i s) = drop i s" by (rule append_take_drop_id)
  with g have "drop i s = ''gzip'' @ drop (i + 4) s" by (simp add: add.commute)
  then have s: "s = take i s @ ''gzip'' @ drop (i + 4) s"
    by (metis append_take_drop_id)
  have pre: "take i s = [] \<or> last (take i s) = CHR '',''"
  proof (cases "i = 0")
    case True
    then show ?thesis by simp
  next
    case False
    with i have ne: "take i s \<noteq> []" by auto
    from False i have "take i s ! (i - 1) = s ! (i - 1)" by simp
    moreover from i have "length (take i s) = i" by simp
    ultimately have "last (take i s) = s ! (i - 1)"
      using last_conv_nth [OF ne] by simp
    with l False show ?thesis by simp
  qed
  have post: "drop (i + 4) s = [] \<or> hd (drop (i + 4) s) = CHR '',''"
  proof (cases "i + 4 = length s")
    case True
    then show ?thesis by simp
  next
    case False
    with len have "i + 4 < length s" by simp
    with r False show ?thesis by (simp add: hd_drop_conv_nth)
  qed
  from s pre post show ?thesis by blast
qed

lemma decomp_reGzip_at:
  assumes s: "s = pre @ ''gzip'' @ post"
    and l: "pre = [] \<or> last pre = CHR '',''"
    and r: "post = [] \<or> hd post = CHR '',''"
  shows "reGzip_at s (length pre)"
proof -
  have a: "length pre = 0 \<or> s ! (length pre - 1) = CHR '',''"
  proof (cases "pre = []")
    case True
    then show ?thesis by simp
  next
    case False
    with l have "last pre = CHR '',''" by simp
    with False show ?thesis
      by (simp add: s nth_append last_conv_nth)
  qed
  have b: "take 4 (drop (length pre) s) = ''gzip''"
    by (simp add: s)
  have c: "length pre + 4 = length s \<or> s ! (length pre + 4) = CHR '',''"
  proof (cases "post = []")
    case True
    then show ?thesis by (simp add: s)
  next
    case False
    with r have "hd post = CHR '',''" by simp
    with False have "post ! 0 = CHR '',''" by (simp add: hd_conv_nth)
    then have "s ! (length pre + 4) = CHR '',''"
      by (simp add: s nth_append)
    then show ?thesis by simp
  qed
  from a b c show ?thesis by (simp add: reGzip_at_def)
qed

lemma CanGzip_alt: "CanGzip ce \<longleftrightarrow> (\<exists>i. i \<le> length ce \<and> reGzip_at ce i)"
  unfolding CanGzip_def by (auto simp del: upt_Suc simp: less_Suc_eq_le)

lemma CanGzip_iff_token: "CanGzip ce = has_gzip_token ce"
proof -
  have nc: "CHR '','' \<notin> set ''gzip''" by simp
  have "CanGzip ce \<longleftrightarrow>
        (\<exists>pre post. ce = pre @ ''gzip'' @ post \<and> (pre = [] \<or> last pre = CHR '','') \<and>
                    (post = [] \<or> hd post = CHR '',''))"
  proof
    assume "CanGzip ce"
    then obtain i where "i \<le> length ce" "reGzip_at ce i"
      by (auto simp: CanGzip_alt)
    then show "\<exists>pre post. ce = pre @ ''gzip'' @ post \<and> (pre = [] \<or> last pre = CHR '','') \<and>
                    (post = [] \<or> hd post = CHR '','')"
      by (rule reGzip_at_decomp)
  next
    assume "\<exists>pre post. ce = pre @ ''gzip'' @ post \<and> (pre = [] \<or> last pre = CHR '','') \<and>
                    (post = [] \<or> hd post = CHR '','')"
    then obtain pre post where d: "ce = pre @ ''gzip'' @ post" "pre = [] \<or> last pre = CHR '',''"
      "post = [] \<or> hd post = CHR '',''" by blast
    from decomp_reGzip_at [OF d] have "reGzip_at ce (length pre)" .
    moreover from d(1) have "length pre \<le> length ce" by simp
    ultimately show "CanGzip ce"
      by (auto simp: CanGzip_alt)
  qed
  with token_iff [OF nc, of ce] show ?thesis
    by (simp add: has_gzip_token_def)
qed

lemma strings_Index_found:
  "0 \<le> strings_Index s sub \<Longrightarrow>
   nat (strings_Index s sub) \<le> length s \<and>
   take (length sub) (drop (nat (strings_Index s sub)) s) = sub"
proof (induction s)
  case Nil
  then show ?case by (simp split: if_splits)
next
  case (Cons c cs)
  show ?case
  proof (cases "hasPrefix (c # cs) sub")
    case True
    then show ?thesis by (simp add: hasPrefix_def)
  next
    case False
    with Cons.prems have r: "0 \<le> strings_Index cs sub"
      and e: "strings_Index (c # cs) sub = strings_Index cs sub + 1"
      by (auto simp: Let_def split: if_splits)
    from Cons.IH [OF r] e r show ?thesis
      by (simp add: nat_add_distrib)
  qed
qed

lemma CanGzipFast_sound: "CanGzipFast ce \<Longrightarrow> has_gzip_token ce"
proof -
  assume f: "CanGzipFast ce"
  let ?pos = "strings_Index ce ''gzip''"
  from f have p: "0 \<le> ?pos"
    and l: "?pos = 0 \<or> ce ! nat (?pos - 1) = CHR '',''"
    and r: "?pos + 4 = int (length ce) \<or> ce ! nat (?pos + 4) = CHR '',''"
    by (simp_all add: CanGzipFast_def Let_def)
  from strings_Index_found [OF p] have le: "nat ?pos \<le> length ce"
    and g: "take 4 (drop (nat ?pos) ce) = ''gzip''" by (simp_all add: eval_nat_numeral)
  have "nat (?pos - 1) = nat ?pos - 1" by arith
  with l p have l': "nat ?pos = 0 \<or> ce ! (nat ?pos - 1) = CHR '',''"
    by auto
  from r p have r': "nat ?pos + 4 = length ce \<or> ce ! (nat ?pos + 4) = CHR '',''"
    by (auto simp: nat_add_distrib)
  from l' g r' have "reGzip_at ce (nat ?pos)" by (simp add: reGzip_at_def)
  with le have "CanGzip ce" by (auto simp: CanGzip_alt)
  then show ?thesis by (simp add: CanGzip_iff_token)
qed

text \<open>
  C1. The gzip-token matcher must answer true exactly when \<open>gzip\<close> is one of the
  comma-separated elements of the header, also when an occurrence of \<open>gzip\<close> inside a
  longer element comes first. On \<open>gziptest,gzip\<close> the second element is the token and
  the regular-expression matcher \<open>CanGzip\<close> finds it, but \<open>CanGzipFast\<close>, which looks
  at the first occurrence only, answers false.
\<close>

theorem CanGzipFast_first_occurrence_only:
  "has_gzip_token ''gziptest,gzip'' \<and> CanGzip ''gziptest,gzip'' \<and>
   \<not> CanGzipFast ''gziptest,gzip''"
  by (simp add: has_gzip_token_def CanGzip_def reGzip_at_def CanGzipFast_def hasPrefix_def)


subsection \<open>Documentation of the maximum bound\<close>

lemma ParseInt_100: "ParseInt ''100'' = Inr 100"
  by (simp add: ParseInt_def is_digit_def digits_val_def digit_val_def)

lemma ParseInt_200: "ParseInt ''200'' = Inr 200"
  by (simp add: ParseInt_def is_digit_def digits_val_def digit_val_def)

text \<open>
  What the maximum rule does to a schema, for every field and every parsable bound:
  the \<open>Minimum\<close> field receives the bound and the \<open>Maximum\<close> field is left as it was.
\<close>

lemma vMaximumInt_ToSwaggerSchema_sets_Minimum:
  assumes "tag_Lookup (sf_Tag f) ''maximum'' = Some t" and "ParseInt t = Inr N"
  shows "ToSwaggerSchema re VMaximumInt f sch = Inr (set_Minimum (I64 N) sch)"
    and "Maximum (set_Minimum (I64 N) sch) = Maximum sch"
  using assms by (cases sch; simp add: vMaximumInt_GetValue_def)+

text \<open>
  C2. A signed-integer field with a \<open>maximum:"N"\<close> tag must be documented with \<open>N\<close> as
  its maximum, and with a minimum only when a \<open>minimum\<close> tag is declared. For the field
  \<open>IntParam\<close> of the test service (\<open>minimum:"100" maximum:"200"\<close>) the generated schema
  has no maximum and the minimum 200; for a field that declares \<open>maximum:"200"\<close> alone
  it has no maximum and the minimum 200 as well. The schema \<open>getSchema\<close> registers for
  a request struct with the field \<open>IntParam\<close> documents \<open>int_param\<close> that way: minimum
  200, no maximum.
\<close>

theorem maximum_documented_as_Minimum:
  "addFieldRestrictions re (sf_of IntParam) empty_schema =
     Inr (Schema [] [] [] [] [] None (Some (I64 200)) None []) \<and>
   addFieldRestrictions re (StructField ''Age'' KInt [(''maximum'', ''200'')]) empty_schema =
     Inr (Schema [] [] [] [] [] None (Some (I64 200)) None []) \<and>
   getSchema (Suc (Suc (Suc k))) re ''a/b'' Req_decls (RStruct ''Req'') [] =
     Some (Return (Schema ''#/components/schemas/hello_req'' [] [] [] [] None None None [],
       [(''hello_req'', Schema [] [] ''object'' []
           [(''int_param'', Schema [] ''An integer parameter'' ''integer'' ''int64'' []
                None (Some (I64 200)) None [])]
           None None None [])]))"
  by (simp add: addFieldRestrictions_def sf_of_def IntParam_def intValidators_def
      vMinimumInt_GetValue_def vMaximumInt_GetValue_def tag_Lookup_def empty_schema_def
      ParseInt_200 ParseInt_100
      Req_decls_def decl_of_def typeName_def TrimPrefix_def hasPrefix_def
      replace_char_def ToLower_def to_lower_def is_upper_def char_of_def bit_0 Let_def
      IsExported_def json_name_def tag_Get_def scalar_schema_def rsf_of_def)

subsection \<open>The walks on a self-referential struct\<close>

lemma Node_decl:
  "decl_of Node_decls ''Node'' =
     \<lparr>td_PkgPath = ''a/b/tree'', td_Name = ''Node'',
      td_Fields = [RField ''Value'' (RScalar SInt) [(''json'', ''value'')],
                   RField ''Next'' (RPtr (RStruct ''Node'')) [(''json'', ''next'')]]\<rparr>"
  by (simp add: decl_of_def Node_decls_def)

lemma Leaf_decl:
  "decl_of Node_decls ''Leaf'' =
     \<lparr>td_PkgPath = ''a/b/tree'', td_Name = ''Leaf'',
      td_Fields = [RField ''Value'' (RScalar SInt) [(''json'', ''value'')]]\<rparr>"
  by (simp add: decl_of_def Node_decls_def)

lemma restr_Value:
  "addFieldRestrictions re (rsf_of (RField ''Value'' (RScalar SInt) [(''json'', ''value'')])) sch
     = Inr sch"
  by (simp add: addFieldRestrictions_def rsf_of_def intValidators_def
      vMinimumInt_GetValue_def vMaximumInt_GetValue_def tag_Lookup_def)

text \<open>
  On a struct that does not refer to itself both walks return, with fuel to spare: the
  fuel only cuts walks that would not end.
\<close>

lemma getSchema_Leaf_returns:
  "getSchema (Suc (Suc (Suc k))) re ''a/b'' Node_decls (RStruct ''Leaf'') [] =
     Some (Return (Schema ''#/components/schemas/tree_leaf'' [] [] [] [] None None None [],
       [(''tree_leaf'', Schema [] [] ''object'' []
           [(''value'', Schema [] [] ''integer'' ''int64'' [] None None None [])]
           None None None [])]))"
  by (simp add: Leaf_decl typeName_def TrimPrefix_def hasPrefix_def
      replace_char_def ToLower_def to_lower_def is_upper_def char_of_def bit_0 Let_def
      IsExported_def json_name_def tag_Lookup_def tag_Get_def restr_Value scalar_schema_def)

lemma addTs_Leaf_returns:
  "addTsStructTypes (Suc (Suc (Suc k))) td_Name Node_decls (RStruct ''Leaf'') [] =
     Some (Return [(''Leaf'', ''Leaf'')])"
  by (simp add: Leaf_decl typesOverrides_def tag_Get_def tag_Lookup_def)

text \<open>
  On \<open>Node\<close> the documentation walk finds the table without an entry for the struct,
  because the entry is written after the fields are walked, and comes back to the same
  struct through the field \<open>Next\<close> with the same table.
\<close>

lemma getSchema_Node_aux:
  "map_of st (typeName tp (decl_of Node_decls ''Node'')) = None \<Longrightarrow>
   getSchema n re tp Node_decls (RStruct ''Node'') st = None \<and>
   getSchema n re tp Node_decls (RPtr (RStruct ''Node'')) st = None"
proof (induction n arbitrary: st)
  case 0
  show ?case by simp
next
  case (Suc n)
  have ptr: "getSchema (Suc n) re tp Node_decls (RPtr (RStruct ''Node'')) st = None"
    using Suc.IH [OF Suc.prems] by simp
  have str: "getSchema (Suc n) re tp Node_decls (RStruct ''Node'') st = None"
  proof (cases n)
    case 0
    then show ?thesis using Suc.prems
      by (simp add: Node_decl IsExported_def is_upper_def json_name_def tag_Lookup_def)
  next
    case (Suc k)
    have "getSchema (Suc k) re tp Node_decls (RPtr (RStruct ''Node'')) st = None"
      using Suc.IH [OF Suc.prems] Suc by simp
    then show ?thesis using Suc.prems Suc
      by (simp add: Node_decl IsExported_def is_upper_def json_name_def tag_Lookup_def
          restr_Value del: getSchema.simps(2))
  qed
  show ?case using ptr str by simp
qed

text \<open>
  The TypeScript walk writes the struct's name into its table before the fields, and
  never looks a name up: it comes back to the same struct whatever the table holds.
\<close>

lemma addTs_scalar:
  "addTsStructTypes (Suc k) nm ds (RScalar s) m = Some (Return m)"
  by (simp add: typesOverrides_def)

lemma addTs_Node_aux:
  "addTsStructTypes n nm Node_decls (RStruct ''Node'') m = None \<and>
   addTsStructTypes n nm Node_decls (RPtr (RStruct ''Node'')) m = None"
proof (induction n arbitrary: m)
  case 0
  show ?case by simp
next
  case (Suc n)
  have ptr: "addTsStructTypes (Suc n) nm Node_decls (RPtr (RStruct ''Node'')) m = None"
    using Suc.IH by (simp add: typesOverrides_def)
  have str: "addTsStructTypes (Suc n) nm Node_decls (RStruct ''Node'') m = None"
  proof (cases n)
    case 0
    then show ?thesis
      by (simp add: Node_decl typesOverrides_def tag_Get_def tag_Lookup_def)
  next
    case (Suc k)
    have "\<And>m'. addTsStructTypes (Suc k) nm Node_decls (RPtr (RStruct ''Node'')) m' = None"
      using Suc.IH Suc by simp
    then show ?thesis unfolding Suc
      by (subst addTsStructTypes.simps(2))
         (simp add: Node_decl typesOverrides_def tag_Get_def tag_Lookup_def addTs_scalar
            del: addTsStructTypes.simps(2))
  qed
  show ?case using ptr str by simp
qed

text \<open>
  C3. Both projections must terminate on self-referential struct types. On
  \<open>type Node struct { Value int; Next *Node }\<close>, starting from empty tables, neither
  \<open>getSchema\<close> nor \<open>addTsStructTypes\<close> returns, however much fuel the walk is given: in
  Go the recursion ends when the stack overflows.
\<close>

theorem walks_on_recursive_struct_never_return:
  "getSchema n re trimPrefix Node_decls (RStruct ''Node'') [] = None \<and>
   addTsStructTypes n toTsTypeName Node_decls (RStruct ''Node'') [] = None"
  using getSchema_Node_aux [of "[]" trimPrefix n re] addTs_Node_aux [of n toTsTypeName "[]"]
  by simp

subsection \<open>Files after the call\<close>

lemma io_upload_sel:
  "multipart_parts (io_upload g) r b = upload_parts"
  "json_Decode (io_upload g) r req =
     (if g then Inr (set_FieldByName ''IntParam'' (VInt 7) req)
      else Inl (PlainError ''unexpected end of JSON input''))"
  "CreateTemp_err (io_upload g) = None"
  "Write_err (io_upload g) = None"
  "Seek_err (io_upload g) = None"
  by (simp_all add: io_upload_def)

lemma capture_three_bytes:
  "capture_file (io_upload g) 1 \<lparr>rd_data = [1, 2, 3], rd_err = None\<rparr> [] =
     (Inr (TmpFile 0),
      [\<lparr>t_content = [1, 2, 3], t_offset = 0, t_open = True, t_exists = True\<rparr>])"
  by (simp add: capture_file_def CopyN_def spool_def io_upload_sel CreateTemp_def
      fs_Write_def fs_Seek0_def)

text \<open>
  A file part that is spooled leaves its temporary file open and on disk, and \<open>Call\<close>
  does nothing to the temporary files after the decoding of the request, whatever the
  request: either it returns with the files as decoding left them, or it invokes the
  handler and returns with the files as the handler left them.
\<close>

lemma capture_file_tmp_open:
  "capture_file io maxMemory p st = (Inr (TmpFile i), st1) \<Longrightarrow>
   i < length st1 \<and> t_open (st1 ! i) \<and> t_exists (st1 ! i)"
  by (auto simp: capture_file_def spool_def CreateTemp_def fs_Write_def fs_Seek0_def
      nth_append split: prod.splits option.splits if_splits)

lemma Call_releases_nothing:
  assumes "Request m = TPtr t"
    and "decode_request io t r boundary maxMemory st = (d, st1)"
  shows "snd (snd (Call re io m r boundary maxMemory st)) = st1 \<or>
         (\<exists>req. d = Return req \<and>
            Call re io m r boundary maxMemory st =
              (fst (Func m (VPtr (Some req)) st1), [VPtr (Some req)],
               snd (Func m (VPtr (Some req)) st1)))"
  using assms
  by (cases d) (auto simp: Call_def split: vres.splits prod.splits)

text \<open>
  C4. Every File created during multipart decode must be released by the pipeline once
  the handler has returned, on success and on every error path, and the release of a
  spooled File deletes its temporary storage. With \<open>maxMemory = 1\<close> and a three-byte
  file part, \<open>Call\<close> spools the part; when the handler \<open>V3\<close> has returned, the temporary
  file is still open and still on disk, and when the JSON part that follows the file is
  rejected, \<open>Call\<close> returns \<open>INVALID_JSON\<close> without invoking the handler and leaves the
  temporary file open and on disk as well.
\<close>

theorem Call_leaves_spooled_file:
  "Call re (io_upload True) (desc_of ReqV3 [] hello_V3) no_body ''b'' 1 [] =
     (Return (RespV3 7 3),
      [VPtr (Some (VStruct
         [(Field ''IntParam'' (TScalar SInt)
             [(''json'', ''int_param''), (''desc'', ''An integer parameter'')], VInt 7),
          (Field ''Content'' TFile [(''json'', ''content''), (''desc'', ''Some file'')],
             VFile (TmpFile 0))]))],
      [\<lparr>t_content = [1, 2, 3], t_offset = 3, t_open = True, t_exists = True\<rparr>]) \<and>
   Call re (io_upload False) (desc_of ReqV3 [] hello_V3) no_body ''b'' 1 [] =
     (Fail (RpcError ''INVALID_JSON'' ''unexpected end of JSON input''), [],
      [\<lparr>t_content = [1, 2, 3], t_offset = 0, t_open = True, t_exists = True\<rparr>])"
  by (simp add: Call_def desc_of_def decode_request_def ReqV3_def io_upload_sel
      upload_parts_def tag_Get_def tag_Lookup_def capture_three_bytes set_FieldByName_def
      hello_V3_def IsExported_def is_upper_def)

subsection \<open>The size of a captured file\<close>

text \<open>
  Below the largest threshold, and when neither the part nor the temporary file fails,
  the capture keeps every byte: the part is spooled exactly when it is longer than
  \<open>maxMemory\<close>, the temporary file then holds the bytes already buffered followed by
  the rest of the part and is rewound, and in both cases the size is the length of the
  part.
\<close>

lemma sint_succ:
  assumes "maxMemory \<noteq> (0x7FFFFFFFFFFFFFFF :: 64 word)"
  shows "sint (maxMemory + 1) = sint maxMemory + 1"
proof -
  have lt: "sint maxMemory < 2 ^ 63" using sint_lt [of maxMemory] by simp
  have ge: "- (2 ^ 63) \<le> sint maxMemory" using sint_ge [of maxMemory] by simp
  have "sint maxMemory \<noteq> 2 ^ 63 - 1"
  proof
    assume "sint maxMemory = 2 ^ 63 - 1"
    then have "sint maxMemory = sint (0x7FFFFFFFFFFFFFFF :: 64 word)" by simp
    then have "maxMemory = 0x7FFFFFFFFFFFFFFF" by (simp only: signed_word_eqI)
    with assms show False by simp
  qed
  with lt have "sint maxMemory + 1 < 2 ^ 63" by simp
  with ge have "signed_take_bit 63 (sint maxMemory + 1) = sint maxMemory + 1"
    by (intro signed_take_bit_int_eq_self) simp_all
  then show ?thesis by (simp add: sint_word_add)
qed

lemma capture_file_keeps_bytes:
  assumes m: "maxMemory \<noteq> 0x7FFFFFFFFFFFFFFF"
    and ok: "rd_err p = None" "CreateTemp_err io = None" "Write_err io = None" "Seek_err io = None"
  shows "capture_file io maxMemory p st =
           (if int (length (rd_data p)) > sint maxMemory
            then (Inr (TmpFile (length st)),
                  st @ [\<lparr>t_content = rd_data p, t_offset = 0, t_open = True, t_exists = True\<rparr>])
            else (Inr (Buffer (rd_data p)), st))"
proof (cases "int (length (rd_data p)) > sint maxMemory")
  case True
  show ?thesis
  proof (cases "sint maxMemory + 1 \<le> 0")
    case le: True
    with True show ?thesis using ok
      by (simp add: capture_file_def sint_succ [OF m] CopyN_def spool_def CreateTemp_def
          fs_Write_def fs_Seek0_def)
  next
    case False
    with True show ?thesis using ok
      by (simp add: capture_file_def sint_succ [OF m] CopyN_def spool_def CreateTemp_def
          fs_Write_def fs_Seek0_def)
  qed
next
  case False
  then show ?thesis using ok
    by (simp add: capture_file_def sint_succ [OF m] CopyN_def)
qed

lemma capture_file_Size:
  assumes "maxMemory \<noteq> 0x7FFFFFFFFFFFFFFF"
    and "rd_err p = None" "CreateTemp_err io = None" "Write_err io = None" "Seek_err io = None"
    and "capture_file io maxMemory p st = (Inr file, st1)"
  shows "file_Size file st1 = int (length (rd_data p))"
  using assms(6) capture_file_keeps_bytes [OF assms(1-5), of st]
  by (auto split: if_splits)

text \<open>
  C8. For every part of \<open>n\<close> bytes and every threshold \<open>maxMemory\<close> the File delivered
  to the handler must report the size \<open>n\<close>. With \<open>maxMemory = 2^63 - 1\<close>, the largest
  \<open>int64\<close>, the limit \<open>maxMemory + 1\<close> passed to \<open>io.CopyN\<close> wraps to \<open>-2^63\<close>: nothing
  is read, and whatever the part carries the File is an empty buffer, so a three-byte
  part is delivered with size 0.
\<close>

theorem capture_at_largest_threshold_is_empty:
  "capture_file io 0x7FFFFFFFFFFFFFFF \<lparr>rd_data = [1, 2, 3], rd_err = None\<rparr> st =
     (Inr (Buffer []), st) \<and>
   file_Size (Buffer []) st = 0 \<and>
   capture_file io 0x7FFFFFFFFFFFFFFF p st = (Inr (Buffer []), st)"
  by (simp add: capture_file_def CopyN_def)

subsection \<open>Descriptor paths\<close>

lemma to_lower_idem: "to_lower (to_lower c) = to_lower c"
  by (simp add: to_lower_def is_upper_def)

lemma ToLower_idem: "ToLower (ToLower s) = ToLower s"
  by (simp add: ToLower_def to_lower_idem)

lemma ToLower_append: "ToLower (a @ b) = ToLower a @ ToLower b"
  by (simp add: ToLower_def)

lemma length_ToLower: "length (ToLower s) = length s"
  by (simp add: ToLower_def)

lemma to_lower_digit: "is_digit c \<Longrightarrow> to_lower c = c"
  by (simp add: to_lower_def is_upper_def is_digit_def)

lemma ToLower_digits: "list_all is_digit ds \<Longrightarrow> ToLower ds = ds"
  by (induction ds) (simp_all add: ToLower_def to_lower_digit)

lemma ToLower_version:
  assumes v: "reMethodVersion name"
  shows "ToLower name = CHR ''v'' # tl name"
proof (cases name)
  case Nil
  with v show ?thesis by (simp add: reMethodVersion_def)
next
  case (Cons c ds)
  with v have c: "c = CHR ''V''" and ds: "list_all is_digit ds"
    by (simp_all add: reMethodVersion_def)
  have "to_lower (CHR ''V'') = CHR ''v''"
    by (simp add: to_lower_def is_upper_def char_of_def bit_0)
  with Cons c ToLower_digits [OF ds] show ?thesis
    by (simp add: ToLower_def)
qed

lemma descs_loop_paths:
  "descs_loop re path gms res = Inr mds \<Longrightarrow>
   map Path mds =
     map Path res @
     map (\<lambda>gm. path @ ''/'' @ ToLower (m_Name gm))
       (filter (\<lambda>gm. reMethodVersion (m_Name gm)) gms)"
proof (induction gms arbitrary: res)
  case Nil
  then show ?case by simp
next
  case (Cons gm gms)
  show ?case
  proof (cases "reMethodVersion (m_Name gm)")
    case False
    with Cons show ?thesis by simp
  next
    case True
    from Cons.prems True obtain vs where
      step: "descs_loop re path gms
               (res @ [\<lparr>Path = path @ ''/'' @ ToLower (m_Name gm),
                        Request = snd (m_In gm ! 2), Response = snd (m_Out gm ! 0),
                        Func = m_Func gm, Errors = [], Validators = vs\<rparr>]) = Inr mds"
      by (auto split: if_splits sum.splits)
    from Cons.IH [OF step] True show ?thesis by simp
  qed
qed

lemma path_lower_iff:
  "(ToLower (p @ ''/'' @ ToLower n) = p @ ''/'' @ ToLower n) = (ToLower p = p)"
proof -
  have "ToLower (CHR ''/'' # ToLower n) = CHR ''/'' # ToLower n"
    by (simp add: ToLower_def to_lower_def is_upper_def)
  then have "ToLower (p @ ''/'' @ ToLower n) = ToLower p @ ''/'' @ ToLower n"
    by (simp add: ToLower_append)
  then show ?thesis
    by (simp add: length_ToLower)
qed


lemma orphan_path: "getMethodPath (orphan_service ev) ''a/b'' = Inr ''/hello''"
  by (simp add: getMethodPath_def orphan_service_def svc_def service_PkgPath_def
      TrimSuffix_def hasSuffix_def hasPrefix_def TrimPrefix_def)

lemma orphan_descs: "descsFromMethod re (orphan_service ev) ''a/b'' = Inr [orphan_desc]"
  by (simp add: descsFromMethod_def orphan_path)
     (simp add: orphan_service_def svc_def accessor_def version_method_def
      reMethodVersion_def is_digit_def ReqV2_def sf_of_def orphan_desc_def
      intValidators_def vMinimumInt_GetValue_def vMaximumInt_GetValue_def tag_Lookup_def
      ToLower_def to_lower_def is_upper_def char_of_def bit_0)

text \<open>
  C5 (as the code has it). When registration of a service succeeds, its descriptors
  are, in the order of the methods, those of the methods named \<open>V<N>\<close>, and the path of
  each is the package path of the service with \<open>trimPrefix\<close> stripped (case kept),
  followed by \<open>/\<close> and the lower-cased method name. A path is entirely lower-case
  exactly when the stripped package path is.
\<close>

theorem descriptor_paths:
  assumes "descsFromMethod re m trimPrefix = Inr mds"
  shows "map Path mds =
           map (\<lambda>gm. TrimPrefix (service_PkgPath m) (TrimSuffix trimPrefix ''/'') @ ''/'' @
                      ToLower (m_Name gm))
             (filter (\<lambda>gm. reMethodVersion (m_Name gm)) (s_Methods m)) \<and>
         (\<forall>md \<in> set mds.
           (ToLower (Path md) = Path md) =
           (ToLower (TrimPrefix (service_PkgPath m) (TrimSuffix trimPrefix ''/'')) =
            TrimPrefix (service_PkgPath m) (TrimSuffix trimPrefix ''/'')))"
proof -
  let ?p = "TrimPrefix (service_PkgPath m) (TrimSuffix trimPrefix ''/'')"
  from assms have loop: "descs_loop re ?p (s_Methods m) [] = Inr mds"
    by (auto simp: descsFromMethod_def getMethodPath_def Let_def split: if_splits sum.splits)
  from descs_loop_paths [OF loop]
  have paths: "map Path mds =
           map (\<lambda>gm. ?p @ ''/'' @ ToLower (m_Name gm))
             (filter (\<lambda>gm. reMethodVersion (m_Name gm)) (s_Methods m))"
    by simp
  have "\<forall>md \<in> set mds. (ToLower (Path md) = Path md) = (ToLower ?p = ?p)"
  proof
    fix md assume "md \<in> set mds"
    then have "Path md \<in> set (map Path mds)" by simp
    with paths have "Path md \<in> (\<lambda>gm. ?p @ ''/'' @ ToLower (m_Name gm)) `
        set (filter (\<lambda>gm. reMethodVersion (m_Name gm)) (s_Methods m))"
      by (metis (no_types, lifting) list.set_map)
    then obtain gm :: go_method where "Path md = ?p @ ''/'' @ ToLower (m_Name gm)"
      by blast
    then show "(ToLower (Path md) = Path md) = (ToLower ?p = ?p)"
      by (simp only: path_lower_iff)
  qed
  with paths show ?thesis by simp
qed

theorem descriptor_paths_witness:
  "descsFromMethod re_hello (orphan_service EvNil) ''a/b'' = Inr [orphan_desc] \<and>
   map Path [orphan_desc] = [''/hello/v1''] \<and>
   ToLower ''/hello/v1'' = ''/hello/v1'' \<and> ToLower ''/hello'' = ''/hello''"
proof -
  have reg: "descsFromMethod re_hello (orphan_service EvNil) ''a/b'' = Inr [orphan_desc]"
    by (rule orphan_descs)
  have low: "ToLower ''/hello'' = ''/hello''"
    by (simp add: ToLower_def to_lower_def is_upper_def)
  have stripped: "TrimPrefix (service_PkgPath (orphan_service EvNil)) (TrimSuffix ''a/b'' ''/'') = ''/hello''"
    by (simp add: orphan_service_def svc_def service_PkgPath_def
      TrimSuffix_def hasSuffix_def hasPrefix_def TrimPrefix_def)
  from descriptor_paths [OF reg] stripped low reg show ?thesis
    by (simp add: orphan_desc_def)
qed

text \<open>
  C5 as stated fails: with the package path \<open>github.com/Acme/Hello\<close> and the prefix
  \<open>github.com\<close> the path of \<open>V2\<close> is \<open>/Acme/Hello/v2\<close>, which is not lower-case.
\<close>

theorem uppercase_package_path_kept:
  "(case descsFromMethod re_hello Acme_service ''github.com'' of
      Inr mds \<Rightarrow> map Path mds | Inl e \<Rightarrow> []) = [''/Acme/Hello/v2''] \<and>
   ToLower ''/Acme/Hello/v2'' \<noteq> ''/Acme/Hello/v2''"
  by (simp add: descsFromMethod_def getMethodPath_def Acme_service_def svc_def service_PkgPath_def
      TrimSuffix_def hasSuffix_def hasPrefix_def TrimPrefix_def version_method_def
      reMethodVersion_def is_digit_def ReqV2_def sf_of_def
      intValidators_def vMinimumInt_GetValue_def vMaximumInt_GetValue_def tag_Lookup_def
      ToLower_def to_lower_def is_upper_def char_of_def bit_0)

subsection \<open>Error catalogs without their method\<close>

lemma map_of_al_set: "map_of (al_set m k v) = (map_of m)(k \<mapsto> v)"
  by (induction m) (auto simp: fun_eq_iff)

lemma map_of_insert_descs:
  "map_of (foldl (\<lambda>ms md. al_set ms (Path md) md) methods mds) k = None \<longleftrightarrow>
   map_of methods k = None \<and> k \<notin> Path ` set mds"
  by (induction mds arbitrary: methods) (auto simp: map_of_al_set)

lemma bind_fields_keeps_None:
  "bind_fields mp efs methods = (r, methods') \<Longrightarrow>
   (map_of methods' k = None) = (map_of methods k = None)"
proof (induction efs arbitrary: methods)
  case Nil
  then show ?case by simp
next
  case (Cons ft efs)
  show ?case
  proof (cases "ef_TypeName ft \<noteq> ''ErrorFunc'' \<or> ef_TypePkgPath ft \<noteq> ''github.com/go-qbit/rpc''")
    case True
    with Cons.prems show ?thesis by auto
  next
    case False
    show ?thesis
    proof (cases "map_of methods mp")
      case None
      with False Cons.prems show ?thesis by auto
    next
      case (Some md)
      let ?ms = "al_set methods mp
           (md\<lparr>Errors := al_set (Errors md) (ef_Name ft) (tag_Get (ef_Tag ft) ''desc'')\<rparr>)"
      show ?thesis
      proof (cases "IsExported (ef_Name ft)")
        case True
        with False Some Cons.prems have "bind_fields mp efs ?ms = (r, methods')"
          by simp
        from Cons.IH [OF this] Some show ?thesis
          by (auto simp: map_of_al_set)
      next
        case unexported: False
        with False Some Cons.prems have "methods' = ?ms"
          by simp
        with Some show ?thesis
          by (auto simp: map_of_al_set)
      qed
    qed
  qed
qed

lemma bind_loop_keeps_None:
  "bind_loop path gms methods = (r, methods') \<Longrightarrow>
   (map_of methods' k = None) = (map_of methods k = None)"
proof (induction gms arbitrary: methods)
  case Nil
  then show ?case by simp
next
  case (Cons gm gms)
  show ?case
  proof (cases "reErrorsVersion (m_Name gm)")
    case None
    with Cons show ?thesis by simp
  next
    case (Some n)
    show ?thesis
    proof (cases "m_Errors gm")
      case (EvPtrStruct efs)
      obtain r1 m1 where bf: "bind_fields (path @ ''/v'' @ n) efs methods = (r1, m1)"
        by (cases "bind_fields (path @ ''/v'' @ n) efs methods")
      show ?thesis
      proof (cases r1)
        case (Return u)
        with Cons.prems Some EvPtrStruct bf have "bind_loop path gms m1 = (r, methods')"
          by simp
        from Cons.IH [OF this] bind_fields_keeps_None [OF bf] show ?thesis by simp
      next
        case (Fail e)
        with Cons.prems Some EvPtrStruct bf bind_fields_keeps_None [OF bf] show ?thesis
          by auto
      next
        case (Panicked msg)
        with Cons.prems Some EvPtrStruct bf bind_fields_keeps_None [OF bf] show ?thesis
          by auto
      qed
    qed (use Cons.prems Some in auto)
  qed
qed

lemma bind_loop_append:
  "bind_loop path (pre @ rest) methods =
     (case bind_loop path pre methods of
        (Return u, methods') \<Rightarrow> bind_loop path rest methods'
      | r \<Rightarrow> r)"
proof (induction pre arbitrary: methods)
  case Nil
  show ?case by simp
next
  case (Cons gm pre)
  show ?case
    by (auto simp: Cons.IH split: option.splits errors_var.splits prod.splits outcome.splits)
qed


lemma version_path_eq:
  assumes v: "reMethodVersion name" and d: "list_all is_digit n"
    and eq: "path @ ''/'' @ ToLower name = path @ ''/v'' @ n"
  shows "name = ''V'' @ n"
proof -
  from eq have "ToLower name = CHR ''v'' # n" by simp
  with ToLower_version [OF v] have "tl name = n" by simp
  moreover from v obtain ds where "name = CHR ''V'' # ds"
    by (cases name) (auto simp: reMethodVersion_def)
  ultimately show ?thesis by simp
qed

lemma reErrorsVersion_digits:
  "reErrorsVersion name = Some n \<Longrightarrow> list_all is_digit n"
  by (auto simp: reErrorsVersion_def split: if_splits)

text \<open>
  C10 (as the code has it). Let a service register its descriptors, let one of its
  accessors \<open>ErrorsV<N>\<close> return a pointer to a struct with at least one field, the
  first of type \<open>rpc.ErrorFunc\<close>, let the service have no method \<open>V<N>\<close> and the
  registry no descriptor at the derived path, and let the accessors listed before bind
  without error. Then \<open>bindErrors\<close> dereferences the nil descriptor: it panics, and so
  does \<open>RegisterMethod\<close>, with the descriptors of the service already in the registry.
\<close>

theorem orphan_error_catalog_panics:
  assumes reg: "descsFromMethod re m trimPrefix = Inr mds"
    and path: "getMethodPath m trimPrefix = Inr path"
    and split: "s_Methods m = pre @ acc # post"
    and acc: "reErrorsVersion (m_Name acc) = Some n"
    and cat: "m_Errors acc = EvPtrStruct (ft # fts)"
    and ft: "ef_TypeName ft = ''ErrorFunc''" "ef_TypePkgPath ft = ''github.com/go-qbit/rpc''"
    and noV: "\<forall>g \<in> set (s_Methods m). m_Name g \<noteq> ''V'' @ n"
    and fresh: "map_of methods (path @ ''/v'' @ n) = None"
    and pre: "bind_loop path pre (foldl (\<lambda>ms md. al_set ms (Path md) md) methods mds)
                = (Return (), methods1)"
  shows "bindErrors m trimPrefix (foldl (\<lambda>ms md. al_set ms (Path md) md) methods mds) =
           (Panicked ''invalid memory address or nil pointer dereference'', methods1) \<and>
         RegisterMethod re swagger_panics trimPrefix methods m =
           (Panicked ''invalid memory address or nil pointer dereference'', methods1)"
proof -
  let ?ms = "foldl (\<lambda>ms md. al_set ms (Path md) md) methods mds"
  let ?mp = "path @ ''/v'' @ n"
  from reg path have loop: "descs_loop re path (s_Methods m) [] = Inr mds"
    by (simp add: descsFromMethod_def)
  have notin: "?mp \<notin> Path ` set mds"
  proof
    assume "?mp \<in> Path ` set mds"
    then have "?mp \<in> set (map Path mds)" by simp
    then have "?mp \<in> (\<lambda>gm. path @ ''/'' @ ToLower (m_Name gm)) `
                 set (filter (\<lambda>gm. reMethodVersion (m_Name gm)) (s_Methods m))"
      using descs_loop_paths [OF loop] by (metis (no_types, lifting) append_Nil list.set_map list.simps(8))
    then obtain gm :: go_method where gm: "gm \<in> set (s_Methods m)" "reMethodVersion (m_Name gm)"
        "path @ ''/'' @ ToLower (m_Name gm) = ?mp"
      by auto
    from version_path_eq [OF gm(2) reErrorsVersion_digits [OF acc] gm(3)] noV gm(1)
    show False by blast
  qed
  with fresh have none0: "map_of ?ms ?mp = None"
    by (simp add: map_of_insert_descs)
  with bind_loop_keeps_None [OF pre] have none1: "map_of methods1 ?mp = None"
    by simp
  have "bind_loop path (pre @ acc # post) ?ms =
          (Panicked ''invalid memory address or nil pointer dereference'', methods1)"
    using pre acc cat ft none1 by (simp add: bind_loop_append)
  with path split have b: "bindErrors m trimPrefix ?ms =
      (Panicked ''invalid memory address or nil pointer dereference'', methods1)"
    by (simp add: bindErrors_def)
  with reg show ?thesis
    by (simp add: RegisterMethod_def)
qed

theorem orphan_error_catalog_panics_witness:
  "descsFromMethod re_hello (orphan_service (EvPtrStruct [error_field ''Error1'' ''Error 1''])) ''a/b''
     = Inr [orphan_desc] \<and>
   map_of ([] :: registry) ''/hello/v2'' = None \<and>
   RegisterMethod re_hello (\<lambda>ms. None) ''a/b'' []
      (orphan_service (EvPtrStruct [error_field ''Error1'' ''Error 1''])) =
     (Panicked ''invalid memory address or nil pointer dereference'', [(''/hello/v1'', orphan_desc)])"
proof -
  let ?ev = "EvPtrStruct [error_field ''Error1'' ''Error 1'']"
  let ?acc = "accessor ''ErrorsV2'' ?ev"
  let ?v1 = "version_method ''V1'' ReqV2 (TScalar SInt)"
  have reg: "descsFromMethod re_hello (orphan_service ?ev) ''a/b'' = Inr [orphan_desc]"
    by (rule orphan_descs)
  have path: "getMethodPath (orphan_service ?ev) ''a/b'' = Inr ''/hello''"
    by (rule orphan_path)
  have split: "s_Methods (orphan_service ?ev) = [] @ ?acc # [?v1]"
    by (simp add: orphan_service_def svc_def)
  have acc: "reErrorsVersion (m_Name ?acc) = Some ''2''"
    by (simp add: accessor_def reErrorsVersion_def is_digit_def)
  have cat: "m_Errors ?acc = EvPtrStruct (error_field ''Error1'' ''Error 1'' # [])"
    by (simp add: accessor_def)
  have ft: "ef_TypeName (error_field ''Error1'' ''Error 1'') = ''ErrorFunc''"
    "ef_TypePkgPath (error_field ''Error1'' ''Error 1'') = ''github.com/go-qbit/rpc''"
    by (simp_all add: error_field_def)
  have noV: "\<forall>g \<in> set (s_Methods (orphan_service ?ev)). m_Name g \<noteq> ''V'' @ ''2''"
    by (simp add: orphan_service_def svc_def accessor_def version_method_def)
  have fresh: "map_of ([] :: registry) (''/hello'' @ ''/v'' @ ''2'') = None"
    by simp
  have pre: "bind_loop ''/hello'' [] (foldl (\<lambda>ms md. al_set ms (Path md) md) [] [orphan_desc])
               = (Return (), [(''/hello/v1'', orphan_desc)])"
    by (simp add: orphan_desc_def)
  from orphan_error_catalog_panics [OF reg path split acc cat ft noV fresh pre, of "\<lambda>ms. None"] reg
  show ?thesis by simp
qed

text \<open>
  C10 as stated fails when the catalog has no field, and when the accessor does not
  return a pointer to a struct: in the first case \<open>RegisterMethod\<close> returns without
  error, in the second it returns a registration error.
\<close>

theorem empty_or_malformed_catalog_does_not_panic:
  "RegisterMethod re_hello (\<lambda>ms. None) ''a/b'' [] (orphan_service (EvPtrStruct [])) =
     (Return (), [(''/hello/v1'', orphan_desc)]) \<and>
   RegisterMethod re_hello (\<lambda>ms. None) ''a/b'' [] (orphan_service EvNotPtr) =
     (Fail (PlainError
        ''cannot bind errors for method *hello.Method: errors variable must be a pointer to a structure''),
      [(''/hello/v1'', orphan_desc)])"
  by (simp add: RegisterMethod_def orphan_descs bindErrors_def orphan_path)
     (simp add: orphan_service_def svc_def accessor_def version_method_def reErrorsVersion_def
        is_digit_def orphan_desc_def)

subsection \<open>What registration compiles for a field\<close>


lemma al_set_not_Nil: "al_set m k v \<noteq> []"
  by (cases m) (auto split: if_splits)











subsection \<open>The bounds of a signed field at request time\<close>







subsection \<open>The bounds of an unsigned field\<close>







subsection \<open>The outcomes of a call\<close>

text \<open>
  Within one field the predicates run in order and the first that fails decides: a
  rejection is the message of the first predicate that does not pass.
\<close>

lemma run_validators_first_failure:
  "run_validators re vs v = Reject msg \<Longrightarrow>
   \<exists>pre vf post. vs = pre @ vf # post \<and> (\<forall>p \<in> set pre. run_validateFunc re p v = Pass) \<and>
                  run_validateFunc re vf v = Reject msg"
proof (induction vs)
  case Nil
  then show ?case by simp
next
  case (Cons a vs)
  show ?case
  proof (cases "run_validateFunc re a v")
    case Pass
    with Cons.prems have "run_validators re vs v = Reject msg" by simp
    from Cons.IH [OF this] obtain pre vf post where
      "vs = pre @ vf # post" "\<forall>p \<in> set pre. run_validateFunc re p v = Pass"
      "run_validateFunc re vf v = Reject msg" by blast
    with Pass have "a # vs = (a # pre) @ vf # post \<and>
        (\<forall>p \<in> set (a # pre). run_validateFunc re p v = Pass) \<and>
        run_validateFunc re vf v = Reject msg" by simp
    then show ?thesis by blast
  next
    case (Reject m')
    with Cons.prems have "a # vs = [] @ a # vs \<and> (\<forall>p \<in> set []. run_validateFunc re p v = Pass) \<and>
        run_validateFunc re a v = Reject msg" by simp
    then show ?thesis by blast
  next
    case (Panic m')
    with Cons.prems show ?thesis by simp
  qed
qed




end
